theory Spec2Isabelle
  imports Complex_Main "HOL-Library.Multiset"
begin

section \<open>Data model (types/lead.ts, types/campaign.ts)\<close>

text \<open>
  The interfaces of the type declarations become records with the source's field names.
  A JavaScript \<open>number\<close> that holds a count or an index is an \<open>int\<close> (or a \<open>nat\<close>
  where it is the length of an array); \<open>probability\<close> and \<open>shap_value\<close> are exact reals,
  so rounding errors of IEEE doubles are outside this model. The identifier of a lead is
  called \<open>lead_id\<close> and that of a campaign \<open>campaign_id\<close>, since \<open>id\<close> is the identity
  function of HOL. Where two interfaces have a field of the same name, the name is
  written with the interface in front (\<open>CreateLeadPayload.job\<close>, \<open>LeadFilterOptions.job\<close>).
\<close>

record ReasonCode =
  feature :: string
  direction :: string
  shap_value :: real

record CreateLeadPayload =
  campaign_run_id :: string
  row_index :: int
  age :: int
  job :: string
  marital :: string
  education :: string
  default_credit :: string
  balance :: int
  housing :: string
  loan :: string
  contact :: string
  day :: int
  month :: string
  campaign :: int
  pdays :: int
  previous :: int
  poutcome :: string
  probability :: real
  prediction :: int
  prediction_label :: string
  risk_level :: string
  reason_codes :: "ReasonCode list"

text \<open>A persisted \<open>Lead\<close> is the payload plus the two columns the storage fills in.\<close>

record Lead = CreateLeadPayload +
  lead_id :: string
  created_at :: string

record LeadListItem =
  lead_id :: string
  row_index :: int
  age :: int
  job :: string
  marital :: string
  education :: string
  balance :: int
  probability :: real
  risk_level :: string

section \<open>The storage collaborator\<close>

text \<open>
  The Supabase client is outside the repository. It is modelled as far as lib/api/leads.ts
  uses it: a table \<open>leads\<close> of rows in insertion order, a log of the insert statements
  the storage has received (so that the number and the sizes of the chunks can be stated),
  and the column defaults (\<open>id\<close>, \<open>created_at\<close>) the storage gives to the row stored at a
  table position. Whether a request fails is not decided by the model: every operation
  takes the error, if any, that the storage answers with. One insert statement is atomic:
  it stores all of its rows or none. A response has the shape \<open>{ data, error, count }\<close>.
\<close>

record PostgrestError =
  message :: string
  details :: string
  hint :: string
  code :: string

record 'a PostgrestResponse =
  data :: "'a option"
  error :: "PostgrestError option"
  count :: "nat option"

record db =
  leads :: "Lead list"
  insert_log :: "CreateLeadPayload list list"
  row_defaults :: "nat \<Rightarrow> string \<times> string"

datatype js_error = Error string

definition failure :: "PostgrestError \<Rightarrow> 'a PostgrestResponse" where
  "failure e = \<lparr>data = None, error = Some e, count = None\<rparr>"

definition new_row :: "(nat \<Rightarrow> string \<times> string) \<Rightarrow> nat \<Rightarrow> CreateLeadPayload \<Rightarrow> Lead" where
  "new_row dflt k p = CreateLeadPayload.extend p (Lead.fields (fst (dflt k)) (snd (dflt k)))"

text \<open>The rows a batch becomes when it is stored from table position \<open>k\<close> on.\<close>

fun new_rows ::
  "(nat \<Rightarrow> string \<times> string) \<Rightarrow> nat \<Rightarrow> CreateLeadPayload list \<Rightarrow> Lead list" where
  "new_rows dflt k [] = []"
| "new_rows dflt k (p # ps) = new_row dflt k p # new_rows dflt (Suc k) ps"

text \<open>
  \<open>supabase.from("leads").insert(batch)\<close>. The oracle \<open>fault\<close> gives the storage's answer
  to the insert statement with a given number (counted from 0 over the life of the store).
\<close>

definition db_insert ::
  "(nat \<Rightarrow> PostgrestError option) \<Rightarrow> db \<Rightarrow> CreateLeadPayload list
     \<Rightarrow> unit PostgrestResponse \<times> db" where
  "db_insert fault st batch =
     (case fault (length (insert_log st)) of
        Some e \<Rightarrow> (failure e, st\<lparr>insert_log := insert_log st @ [batch]\<rparr>)
      | None \<Rightarrow>
          (\<lparr>data = None, error = None, count = None\<rparr>,
           st\<lparr>leads := leads st @ new_rows (row_defaults st) (length (leads st)) batch,
              insert_log := insert_log st @ [batch]\<rparr>))"

section \<open>bulkInsertLeads (lib/api/leads.ts)\<close>

definition toLeadInsert :: "CreateLeadPayload \<Rightarrow> CreateLeadPayload" where
  "toLeadInsert lead = lead\<lparr>reason_codes := reason_codes lead\<rparr>"

definition BATCH_SIZE :: nat where
  "BATCH_SIZE = 500"

text \<open>\<open>Array.prototype.slice(start, end)\<close> for indices that are not negative.\<close>

definition slice :: "'a list \<Rightarrow> nat \<Rightarrow> nat \<Rightarrow> 'a list" where
  "slice xs s e = take (e - s) (drop s xs)"

text \<open>
  The \<open>for\<close> loop of \<open>bulkInsertLeads\<close>, with its variables \<open>i\<close> and \<open>insertedCount\<close>.
  A \<open>throw\<close> is the \<open>Inl\<close> result; the store is returned in both cases, since what was
  inserted before the \<open>throw\<close> stays inserted.
\<close>

function insert_loop ::
  "(nat \<Rightarrow> PostgrestError option) \<Rightarrow> CreateLeadPayload list \<Rightarrow> nat \<Rightarrow> nat \<Rightarrow> db
     \<Rightarrow> (js_error + nat) \<times> db" where
  "insert_loop fault lds i insertedCount st =
     (if i < length lds then
        (case db_insert fault st (map toLeadInsert (slice lds i (i + BATCH_SIZE))) of
           (resp, st') \<Rightarrow>
             (case error resp of
                Some e \<Rightarrow> (Inl (Error (''Failed to insert leads: '' @ message e)), st')
              | None \<Rightarrow>
                  insert_loop fault lds (i + BATCH_SIZE)
                    (insertedCount + length (map toLeadInsert (slice lds i (i + BATCH_SIZE))))
                    st'))
      else (Inr insertedCount, st))"
  by pat_completeness auto
termination
  by (relation "measure (\<lambda>(fault, lds, i, insertedCount, st). length lds - i)")
     (auto simp: BATCH_SIZE_def)

declare insert_loop.simps [simp del]

definition bulkInsertLeads ::
  "(nat \<Rightarrow> PostgrestError option) \<Rightarrow> db \<Rightarrow> CreateLeadPayload list \<Rightarrow> (js_error + nat) \<times> db" where
  "bulkInsertLeads fault st lds = insert_loop fault lds 0 0 st"


text \<open>
  The chunking as the specification words it: \<open>ceil(n / size)\<close> chunks, chunk \<open>k\<close>
  (counted from 0) holding the records at positions \<open>k * size\<close> up to \<open>k * size + size\<close>.
\<close>

definition chunks :: "nat \<Rightarrow> 'a list \<Rightarrow> 'a list list" where
  "chunks n xs = map (\<lambda>k. slice xs (k * n) (k * n + n)) [0..<(length xs + n - 1) div n]"

section \<open>Read queries of the storage collaborator\<close>

text \<open>
  The query builder of the client: a chain of \<open>.eq\<close>, \<open>.gte\<close> and \<open>.lte\<close> calls is
  the list of their conditions, all of which a row has to satisfy. The typed client
  accepts only column names of the table, so the columns used are a datatype.
\<close>

datatype text_column = Col_id | Col_campaign_run_id | Col_risk_level | Col_job | Col_education

datatype num_column = Col_probability

datatype pg_filter = Eq text_column string | Gte num_column real | Lte num_column real

fun text_value :: "text_column \<Rightarrow> Lead \<Rightarrow> string" where
  "text_value Col_id l = Lead.lead_id l"
| "text_value Col_campaign_run_id l = campaign_run_id l"
| "text_value Col_risk_level l = CreateLeadPayload.risk_level l"
| "text_value Col_job l = CreateLeadPayload.job l"
| "text_value Col_education l = CreateLeadPayload.education l"

fun num_value :: "num_column \<Rightarrow> Lead \<Rightarrow> real" where
  "num_value Col_probability l = CreateLeadPayload.probability l"

fun holds :: "pg_filter \<Rightarrow> Lead \<Rightarrow> bool" where
  "holds (Eq c v) l = (text_value c l = v)"
| "holds (Gte c v) l = (v \<le> num_value c l)"
| "holds (Lte c v) l = (num_value c l \<le> v)"

definition matching :: "db \<Rightarrow> pg_filter list \<Rightarrow> Lead list" where
  "matching st q = filter (\<lambda>l. list_all (\<lambda>f. holds f l) q) (leads st)"

text \<open>
  \<open>.select(columns)\<close> with filters: the matching rows in table order, projected to the
  selected columns. A read leaves the store as it is.
\<close>

definition db_select ::
  "PostgrestError option \<Rightarrow> db \<Rightarrow> (Lead \<Rightarrow> 'a) \<Rightarrow> pg_filter list
     \<Rightarrow> 'a list PostgrestResponse \<times> db" where
  "db_select fault st columns q =
     (case fault of
        Some e \<Rightarrow> (failure e, st)
      | None \<Rightarrow> (\<lparr>data = Some (map columns (matching st q)), error = None, count = None\<rparr>, st))"

text \<open>
  \<open>.order("probability", { ascending: false })\<close>. The storage does not fix the order of
  rows with equal probability, and may order them differently from one query to the next;
  the model keeps them in table order. The general statements below use of this function
  only that its result is a permutation of the rows in descending order of probability,
  which every order the storage may choose satisfies; the concrete runs are on rows of
  different probabilities.
\<close>

definition order_probability_desc :: "Lead list \<Rightarrow> Lead list" where
  "order_probability_desc rows = sort_key (\<lambda>l. - CreateLeadPayload.probability l) rows"

text \<open>
  \<open>.range(from, to)\<close> asks for the rows at positions \<open>from\<close> to \<open>to\<close>, both included
  (\<open>offset = from\<close>, \<open>limit = to - from + 1\<close>). What the storage answers to a negative
  offset or limit is its own business and comes in through the error parameter; no
  statement below is about such a range.
\<close>

definition db_range :: "int \<Rightarrow> int \<Rightarrow> 'a list \<Rightarrow> 'a list" where
  "db_range from to rows = take (nat (to - from + 1)) (drop (nat from) rows)"

text \<open>
  \<open>.select(columns, { count: "exact" })\<close> with filters, \<open>.order\<close> and \<open>.range\<close>:
  \<open>count\<close> is the number of all matching rows, \<open>data\<close> the requested window.
\<close>

definition db_select_range ::
  "PostgrestError option \<Rightarrow> db \<Rightarrow> (Lead \<Rightarrow> 'a) \<Rightarrow> pg_filter list \<Rightarrow> int \<Rightarrow> int
     \<Rightarrow> 'a list PostgrestResponse \<times> db" where
  "db_select_range fault st columns q from to =
     (case fault of
        Some e \<Rightarrow> (failure e, st)
      | None \<Rightarrow>
          (\<lparr>data = Some (map columns (db_range from to (order_probability_desc (matching st q)))),
            error = None,
            count = Some (length (matching st q))\<rparr>, st))"

text \<open>
  \<open>.single()\<close>: the one matching row, or the error with code \<open>PGRST116\<close> when the
  number of matching rows is not one. The source reads only \<open>code\<close> and \<open>message\<close>.
\<close>

definition no_single_row :: PostgrestError where
  "no_single_row =
     \<lparr>message = ''JSON object requested, multiple (or no) rows returned'',
      details = [], hint = [], code = ''PGRST116''\<rparr>"

definition db_single ::
  "PostgrestError option \<Rightarrow> db \<Rightarrow> pg_filter list \<Rightarrow> Lead PostgrestResponse \<times> db" where
  "db_single fault st q =
     (case fault of
        Some e \<Rightarrow> (failure e, st)
      | None \<Rightarrow>
          (case matching st q of
             [l] \<Rightarrow> (\<lparr>data = Some l, error = None, count = None\<rparr>, st)
           | _ \<Rightarrow> (failure no_single_row, st)))"

section \<open>getLeadStatsByCampaign (lib/api/leads.ts)\<close>

record LeadStatsRow =
  risk_level :: string
  probability :: real

definition risk_level_probability :: "Lead \<Rightarrow> LeadStatsRow" where
  "risk_level_probability l =
     \<lparr>risk_level = CreateLeadPayload.risk_level l,
      probability = CreateLeadPayload.probability l\<rparr>"

record LeadStats =
  total :: nat
  highRisk :: nat
  mediumRisk :: nat
  lowRisk :: nat
  avgProbability :: "real option"

text \<open>\<open>Math.round\<close> rounds to the nearest integer, a half upwards.\<close>

definition Math_round :: "real \<Rightarrow> int" where
  "Math_round x = \<lfloor>x + 1 / 2\<rfloor>"

definition getLeadStatsByCampaign ::
  "PostgrestError option \<Rightarrow> db \<Rightarrow> string \<Rightarrow> (js_error + LeadStats) \<times> db" where
  "getLeadStatsByCampaign fault st campaignRunId =
     (case db_select fault st risk_level_probability [Eq Col_campaign_run_id campaignRunId] of
        (resp, st') \<Rightarrow>
          (case error resp of
             Some e \<Rightarrow> (Inl (Error (''Failed to fetch lead stats: '' @ message e)), st')
           | None \<Rightarrow>
               (let lds = (case data resp of None \<Rightarrow> [] | Some d \<Rightarrow> d);
                    n = length lds
                in if n = 0 then
                     (Inr \<lparr>total = 0, highRisk = 0, mediumRisk = 0, lowRisk = 0,
                           avgProbability = None\<rparr>, st')
                   else
                     (let high = length (filter (\<lambda>l. risk_level l = ''High'') lds);
                          medium = length (filter (\<lambda>l. risk_level l = ''Medium'') lds);
                          low = length (filter (\<lambda>l. risk_level l = ''Low'') lds);
                          avg = foldl (\<lambda>sum l. sum + probability l) 0 lds / real n
                      in (Inr \<lparr>total = n, highRisk = high, mediumRisk = medium, lowRisk = low,
                               avgProbability =
                                 Some (real_of_int (Math_round (avg * 10000)) / 10000)\<rparr>,
                          st')))))"

section \<open>getLeadsByCampaign (lib/api/leads.ts)\<close>

record LeadPaginationOptions =
  page :: "int option"
  pageSize :: "int option"

record LeadFilterOptions =
  riskLevel :: "string option"
  minProbability :: "real option"
  maxProbability :: "real option"
  job :: "string option"
  education :: "string option"

text \<open>
  The quotient \<open>total / pageSize\<close> is a JavaScript number: dividing by zero gives
  \<open>Infinity\<close>, or \<open>NaN\<close> for \<open>0 / 0\<close>.
\<close>

datatype js_number = Finite int | Infinity | NaN

record PaginatedLeads =
  data :: "LeadListItem list"
  total :: nat
  page :: int
  pageSize :: int
  totalPages :: js_number

definition toListItem :: "Lead \<Rightarrow> LeadListItem" where
  "toListItem l =
     \<lparr>LeadListItem.lead_id = Lead.lead_id l,
      row_index = CreateLeadPayload.row_index l,
      age = CreateLeadPayload.age l,
      job = CreateLeadPayload.job l,
      marital = CreateLeadPayload.marital l,
      education = CreateLeadPayload.education l,
      balance = CreateLeadPayload.balance l,
      probability = CreateLeadPayload.probability l,
      risk_level = CreateLeadPayload.risk_level l\<rparr>"

text \<open>\<open>if (filters.job)\<close>: an absent string and the empty string are both falsy.\<close>

fun truthy :: "string option \<Rightarrow> bool" where
  "truthy None = False"
| "truthy (Some s) = (s \<noteq> [])"

text \<open>The conditions the function puts on the query, in the order of the source.\<close>

definition lead_query :: "string \<Rightarrow> LeadFilterOptions \<Rightarrow> pg_filter list" where
  "lead_query campaignRunId filters =
     [Eq Col_campaign_run_id campaignRunId]
     @ (if truthy (riskLevel filters) then [Eq Col_risk_level (the (riskLevel filters))] else [])
     @ (case minProbability filters of None \<Rightarrow> [] | Some m \<Rightarrow> [Gte Col_probability m])
     @ (case maxProbability filters of None \<Rightarrow> [] | Some m \<Rightarrow> [Lte Col_probability m])
     @ (if truthy (LeadFilterOptions.job filters)
        then [Eq Col_job (the (LeadFilterOptions.job filters))] else [])
     @ (if truthy (LeadFilterOptions.education filters)
        then [Eq Col_education (the (LeadFilterOptions.education filters))] else [])"

definition Math_ceil_div :: "nat \<Rightarrow> int \<Rightarrow> js_number" where
  "Math_ceil_div n d =
     (if d = 0 then (if n = 0 then NaN else Infinity)
      else Finite \<lceil>real n / real_of_int d\<rceil>)"

definition getLeadsByCampaign ::
  "PostgrestError option \<Rightarrow> db \<Rightarrow> string \<Rightarrow> LeadPaginationOptions \<Rightarrow> LeadFilterOptions
     \<Rightarrow> (js_error + PaginatedLeads) \<times> db" where
  "getLeadsByCampaign fault st campaignRunId options filters =
     (let pg = (case LeadPaginationOptions.page options of None \<Rightarrow> 1 | Some p \<Rightarrow> p);
          sz = (case LeadPaginationOptions.pageSize options of None \<Rightarrow> 25 | Some s \<Rightarrow> s);
          offset = (pg - 1) * sz
      in case db_select_range fault st toListItem (lead_query campaignRunId filters)
                offset (offset + sz - 1) of
           (resp, st') \<Rightarrow>
             (case error resp of
                Some e \<Rightarrow> (Inl (Error (''Failed to fetch leads: '' @ message e)), st')
              | None \<Rightarrow>
                  (let n = (case count resp of None \<Rightarrow> 0 | Some c \<Rightarrow> c)
                   in (Inr \<lparr>data = (case PostgrestResponse.data resp of None \<Rightarrow> [] | Some d \<Rightarrow> d),
                            total = n, page = pg, pageSize = sz,
                            totalPages = Math_ceil_div n sz\<rparr>, st'))))"

text \<open>
  The filter semantics as the specification words it (risk tier, job category and
  education level match exactly, the probability lies in the closed range, an omitted
  filter imposes nothing), with the one change the code forces: an empty string given as
  risk tier, job or education counts as omitted.
\<close>

definition satisfies_filters :: "LeadFilterOptions \<Rightarrow> Lead \<Rightarrow> bool" where
  "satisfies_filters filters l =
     ((case riskLevel filters of
         None \<Rightarrow> True | Some r \<Rightarrow> r = [] \<or> CreateLeadPayload.risk_level l = r)
    \<and> (case minProbability filters of
         None \<Rightarrow> True | Some m \<Rightarrow> m \<le> CreateLeadPayload.probability l)
    \<and> (case maxProbability filters of
         None \<Rightarrow> True | Some m \<Rightarrow> CreateLeadPayload.probability l \<le> m)
    \<and> (case LeadFilterOptions.job filters of
         None \<Rightarrow> True | Some j \<Rightarrow> j = [] \<or> CreateLeadPayload.job l = j)
    \<and> (case LeadFilterOptions.education filters of
         None \<Rightarrow> True | Some e \<Rightarrow> e = [] \<or> CreateLeadPayload.education l = e))"

section \<open>getLeadById (lib/api/leads.ts)\<close>

definition getLeadById ::
  "PostgrestError option \<Rightarrow> db \<Rightarrow> string \<Rightarrow> (js_error + Lead option) \<times> db" where
  "getLeadById fault st i =
     (case db_single fault st [Eq Col_id i] of
        (resp, st') \<Rightarrow>
          (case error resp of
             Some e \<Rightarrow>
               if code e = ''PGRST116'' then (Inr None, st')
               else (Inl (Error (''Failed to fetch lead: '' @ message e)), st')
           | None \<Rightarrow> (Inr (PostgrestResponse.data resp), st')))"

section \<open>The ingestion run (types/campaign.ts)\<close>

text \<open>
  The campaign record and its status are the \<open>CampaignRun\<close> interface of the sources.
\<close>

datatype campaign_status = processing | completed | failed

record CampaignRun =
  campaign_id :: string
  name :: string
  source_filename :: string
  total_rows :: int
  processed_rows :: int
  dropped_rows :: int
  avg_probability :: "real option"
  conversion_high :: int
  conversion_medium :: int
  conversion_low :: int
  status :: campaign_status
  error_message :: "string option"
  created_by :: "string option"
  created_at :: string
  updated_at :: string

text \<open>
  Modelled from the spec: the outcome of the scoring client and the lead reconciler
  (sections 4.2 and 4.3; neither is among the sources). The engine was unreachable, its
  response was malformed, or it scored the batch, which gives the insertable leads of the
  rows it scored and the number of rows it marked invalid.
\<close>

datatype scoring_result =
    ScoringUnavailable
  | ScoringResponseMalformed
  | Scored "CreateLeadPayload list" nat

text \<open>
  Modelled from the spec: the update of the campaign record on failure (sections 3 and
  4.6; the campaign API is not among the sources). The row counts reflect the rows
  persisted before the failure, and \<open>dropped_rows\<close> accounts for every row not persisted.
\<close>

definition mark_failed :: "CampaignRun \<Rightarrow> nat \<Rightarrow> string \<Rightarrow> CampaignRun" where
  "mark_failed c persisted msg =
     c\<lparr>processed_rows := int persisted,
       dropped_rows := total_rows c - int persisted,
       status := failed,
       error_message := Some msg\<rparr>"

text \<open>
  Modelled from the spec: the summary of the reconciled leads and the update of the
  campaign record on completion (sections 4.5 and 4.6; the campaign API is not among the
  sources). Row counts and summary fields are set from the reconciled result.
\<close>

definition mean_probability :: "CreateLeadPayload list \<Rightarrow> real option" where
  "mean_probability lds =
     (if lds = [] then None
      else Some (foldl (\<lambda>sum l. sum + CreateLeadPayload.probability l) 0 lds / real (length lds)))"

text \<open>
  Modelled from the spec: see \<open>mean_probability\<close>; the campaign API is not among the
  sources.
\<close>

definition mark_completed :: "CampaignRun \<Rightarrow> CreateLeadPayload list \<Rightarrow> nat \<Rightarrow> CampaignRun" where
  "mark_completed c lds invalid =
     c\<lparr>processed_rows := int (length lds),
       dropped_rows := int invalid,
       avg_probability := mean_probability lds,
       conversion_high :=
         int (length (filter (\<lambda>l. CreateLeadPayload.risk_level l = ''High'') lds)),
       conversion_medium :=
         int (length (filter (\<lambda>l. CreateLeadPayload.risk_level l = ''Medium'') lds)),
       conversion_low :=
         int (length (filter (\<lambda>l. CreateLeadPayload.risk_level l = ''Low'') lds)),
       status := completed\<rparr>"

text \<open>
  Modelled from the spec: the campaign orchestrator (the upload route and the campaign
  API that create and update the campaign record are not among the sources). Following
  sections 3, 4.3, 4.4 and 4.6 of the specification: a batch that fails validation
  creates no campaign; otherwise the campaign is created in status \<open>processing\<close> with the
  row count of the batch; a failure of the engine, of the reconciliation (scored plus
  invalid rows differ from the row count) or of a chunk moves it to \<open>failed\<close>, with
  \<open>processed_rows\<close> the number of leads persisted before the failure and \<open>dropped_rows\<close>
  every other row; success moves it to \<open>completed\<close> with the counts of the reconciled
  result. The number of committed records, which the specification has the batch writer
  report, is read from the store, since \<open>bulkInsertLeads\<close> throws without it. The result
  is the sequence of states the persisted campaign record goes through, and the store.
\<close>

definition ingest ::
  "bool \<Rightarrow> CampaignRun \<Rightarrow> nat \<Rightarrow> scoring_result \<Rightarrow> (nat \<Rightarrow> PostgrestError option) \<Rightarrow> db
     \<Rightarrow> CampaignRun list \<times> db" where
  "ingest valid base n scoring fault st =
     (if \<not> valid then ([], st)
      else
        (let created = base\<lparr>total_rows := int n, processed_rows := 0, dropped_rows := 0,
                            status := processing, error_message := None\<rparr>
         in case scoring of
              ScoringUnavailable \<Rightarrow>
                ([created, mark_failed created 0 ''Scoring engine unavailable''], st)
            | ScoringResponseMalformed \<Rightarrow>
                ([created, mark_failed created 0 ''Malformed scoring response''], st)
            | Scored lds invalid \<Rightarrow>
                if length lds + invalid \<noteq> n then
                  ([created, mark_failed created 0 ''Reconciliation failed''], st)
                else
                  (case bulkInsertLeads fault st lds of
                     (Inl (Error msg), st') \<Rightarrow>
                       ([created,
                         mark_failed created (length (leads st') - length (leads st)) msg], st')
                   | (Inr inserted, st') \<Rightarrow>
                       ([created, mark_completed created lds invalid], st'))))"

section \<open>Concrete values\<close>

text \<open>A lead, an empty store and a storage error, for statements about concrete runs.\<close>

definition a_lead :: CreateLeadPayload where
  "a_lead =
     \<lparr>campaign_run_id = ''c1'', row_index = 0, age = 41, job = ''admin'',
      marital = ''married'', education = ''tertiary'', default_credit = ''no'',
      balance = 1200, housing = ''yes'', loan = ''no'', contact = ''cellular'', day = 5,
      month = ''may'', campaign = 1, pdays = -1, previous = 0, poutcome = ''unknown'',
      probability = 1 / 32, prediction = 0, prediction_label = ''no'',
      risk_level = ''Low'', reason_codes = []\<rparr>"

definition empty_db :: db where
  "empty_db =
     \<lparr>leads = [], insert_log = [],
      row_defaults = (\<lambda>k. (''lead-'' @ replicate k CHR ''i'', ''2025-12-11''))\<rparr>"

definition an_error :: PostgrestError where
  "an_error = \<lparr>message = ''connection lost'', details = [], hint = [], code = ''08006''\<rparr>"

text \<open>The storage that fails the insert statement number \<open>k\<close> and no other.\<close>

definition fail_at :: "nat \<Rightarrow> nat \<Rightarrow> PostgrestError option" where
  "fail_at k n = (if n = k then Some an_error else None)"

definition never_fail :: "nat \<Rightarrow> PostgrestError option" where
  "never_fail n = None"

text \<open>
  Stores: one that holds the lead, one that holds two leads of the same campaign, and
  (below) one that holds the lead and a lead of another campaign; the rows of the first
  two; options and filters.
\<close>

definition one_lead_db :: db where
  "one_lead_db = empty_db\<lparr>leads := new_rows (row_defaults empty_db) 0 [a_lead]\<rparr>"

definition two_lead_db :: db where
  "two_lead_db =
     empty_db\<lparr>leads := new_rows (row_defaults empty_db) 0
                          [a_lead, a_lead\<lparr>CreateLeadPayload.row_index := 1,
                                  CreateLeadPayload.probability := 1 / 2,
                                  CreateLeadPayload.risk_level := ''Medium''\<rparr>]\<rparr>"

definition first_row :: Lead where
  "first_row = new_row (row_defaults empty_db) 0 a_lead"

definition second_row :: Lead where
  "second_row =
     new_row (row_defaults empty_db) 1
       (a_lead\<lparr>CreateLeadPayload.row_index := 1, CreateLeadPayload.probability := 1 / 2,
               CreateLeadPayload.risk_level := ''Medium''\<rparr>)"

definition no_options :: LeadPaginationOptions where
  "no_options = \<lparr>LeadPaginationOptions.page = None, pageSize = None\<rparr>"

definition no_filters :: LeadFilterOptions where
  "no_filters =
     \<lparr>riskLevel = None, minProbability = None, maxProbability = None, job = None,
      education = None\<rparr>"

definition a_campaign :: CampaignRun where
  "a_campaign =
     \<lparr>campaign_id = ''c1'', name = ''May leads'', source_filename = ''may.csv'',
      total_rows = 0, processed_rows = 0, dropped_rows = 0, avg_probability = None,
      conversion_high = 0, conversion_medium = 0, conversion_low = 0, status = processing,
      error_message = None, created_by = None, created_at = ''2025-12-11'',
      updated_at = ''2025-12-11''\<rparr>"

definition all_filters :: LeadFilterOptions where
  "all_filters =
     \<lparr>riskLevel = Some ''Low'', minProbability = Some 0, maxProbability = Some 1,
      job = Some ''admin'', education = Some ''tertiary''\<rparr>"

definition empty_job_filter :: LeadFilterOptions where
  "empty_job_filter =
     \<lparr>riskLevel = None, minProbability = None, maxProbability = None, job = Some [],
      education = None\<rparr>"

definition two_campaign_db :: db where
  "two_campaign_db =
     empty_db\<lparr>leads := new_rows (row_defaults empty_db) 0
                          [a_lead, a_lead\<lparr>campaign_run_id := ''c2''\<rparr>]\<rparr>"

section \<open>Chunked insertion\<close>

lemma chunks_Nil: "chunks n [] = []"
  by (cases "n = 0") (simp_all add: chunks_def)

lemma chunk_count_step:
  assumes "0 < n" "0 < (m::nat)"
  shows "(m + n - 1) div n = Suc ((m - n + n - 1) div n)"
proof (cases "n \<le> m")
  case True
  then have e: "m + n - 1 = (m - 1) + n" using assms by simp
  have "(m - 1 + n) div n = (m - 1) div n + 1"
    using assms by (intro div_add_self2) simp
  then have "(m + n - 1) div n = Suc ((m - 1) div n)"
    by (simp only: e Suc_eq_plus1)
  moreover have "m - n + n - 1 = m - 1" using True by simp
  ultimately show ?thesis by (simp only:)
next
  case False
  then have "(m + n - 1) div n = 1" using assms
    by (intro div_nat_eqI) simp_all
  moreover have "(m - n + n - 1) div n = 0" using False assms by simp
  ultimately show ?thesis by simp
qed

lemma slice_drop: "slice (drop n xs) s e = slice xs (s + n) (e + n)"
  by (simp add: slice_def add.commute)

lemma chunks_step:
  assumes "0 < n" "xs \<noteq> []"
  shows "chunks n xs = take n xs # chunks n (drop n xs)"
proof -
  let ?c = "(length xs - n + n - 1) div n"
  have c: "(length xs + n - 1) div n = Suc ?c"
    using chunk_count_step [of n "length xs"] assms by simp
  have u: "[0..<Suc ?c] = 0 # map Suc [0..<?c]"
    by (simp add: upt_conv_Cons map_Suc_upt del: upt_Suc)
  have "chunks n xs = map (\<lambda>k. slice xs (k * n) (k * n + n)) (0 # map Suc [0..<?c])"
    unfolding chunks_def c u ..
  also have "\<dots> = slice xs 0 n # map (\<lambda>k. slice xs (Suc k * n) (Suc k * n + n)) [0..<?c]"
    by (simp add: o_def)
  also have "slice xs 0 n = take n xs"
    by (simp add: slice_def)
  also have "map (\<lambda>k. slice xs (Suc k * n) (Suc k * n + n)) [0..<?c] = chunks n (drop n xs)"
    unfolding chunks_def by (simp add: slice_drop add.commute)
  finally show ?thesis .
qed


lemma new_rows_append:
  "new_rows d k (xs @ ys) = new_rows d k xs @ new_rows d (k + length xs) ys"
  by (induction xs arbitrary: k) simp_all

lemma length_new_rows: "length (new_rows d k xs) = length xs"
  by (induction xs arbitrary: k) simp_all

lemma toLeadInsert_same: "toLeadInsert lead = lead"
  by (simp add: toLeadInsert_def)

lemma map_toLeadInsert: "map toLeadInsert lds = lds"
  by (induction lds) (simp_all add: toLeadInsert_same)

lemma db_insert_ok:
  "fault (length (insert_log st)) = None \<Longrightarrow>
   db_insert fault st batch =
     (\<lparr>PostgrestResponse.data = None, error = None, count = None\<rparr>,
      st\<lparr>leads := leads st @ new_rows (row_defaults st) (length (leads st)) batch,
         insert_log := insert_log st @ [batch]\<rparr>)"
  by (simp add: db_insert_def)

lemma db_insert_fail:
  "fault (length (insert_log st)) = Some e \<Longrightarrow>
   db_insert fault st batch = (failure e, st\<lparr>insert_log := insert_log st @ [batch]\<rparr>)"
  by (simp add: db_insert_def)

lemma drop_split: "take n (drop i xs) @ drop (i + n) xs = drop i xs"
proof -
  have "drop (i + n) xs = drop n (drop i xs)" by (simp add: add.commute)
  then show ?thesis by (simp only: append_take_drop_id)
qed

lemma insert_loop_done:
  "\<not> i < length lds \<Longrightarrow> insert_loop fault lds i c st = (Inr c, st)"
  by (subst insert_loop.simps) simp

lemma insert_loop_ok_step:
  "i < length lds \<Longrightarrow> fault (length (insert_log st)) = None \<Longrightarrow>
   insert_loop fault lds i c st =
     insert_loop fault lds (i + BATCH_SIZE) (c + length (take BATCH_SIZE (drop i lds)))
       (st\<lparr>leads := leads st @ new_rows (row_defaults st) (length (leads st)) (take BATCH_SIZE (drop i lds)),
         insert_log := insert_log st @ [take BATCH_SIZE (drop i lds)]\<rparr>)"
  by (subst insert_loop.simps) (simp add: db_insert_ok map_toLeadInsert slice_def)

lemma insert_loop_fail_step:
  "i < length lds \<Longrightarrow> fault (length (insert_log st)) = Some e \<Longrightarrow>
   insert_loop fault lds i c st =
     (Inl (Error (''Failed to insert leads: '' @ message e)),
      st\<lparr>insert_log := insert_log st @ [take BATCH_SIZE (drop i lds)]\<rparr>)"
  by (subst insert_loop.simps) (simp add: db_insert_fail map_toLeadInsert slice_def failure_def)


lemma insert_loop_all_ok:
  "(\<forall>j. fault (length (insert_log st) + j) = None) \<Longrightarrow>
   insert_loop fault lds i c st =
     (Inr (c + (length lds - i)),
      st\<lparr>leads := leads st @ new_rows (row_defaults st) (length (leads st)) (drop i lds),
         insert_log := insert_log st @ chunks BATCH_SIZE (drop i lds)\<rparr>)"
proof (induction "length lds - i" arbitrary: i c st rule: less_induct)
  case less
  show ?case
  proof (cases "i < length lds")
    case False
    then show ?thesis
      by (simp add: insert_loop_done chunks_Nil)
  next
    case True
    let ?b = "take BATCH_SIZE (drop i lds)"
    let ?st = "st\<lparr>leads := leads st @ new_rows (row_defaults st) (length (leads st)) ?b,
                   insert_log := insert_log st @ [?b]\<rparr>"
    have f0: "fault (length (insert_log st)) = None"
      using less.prems [rule_format, of 0] by simp
    have fs: "\<forall>j. fault (length (insert_log ?st) + j) = None"
    proof
      fix j show "fault (length (insert_log ?st) + j) = None"
        using less.prems [rule_format, of "Suc j"] by simp
    qed
    have dec: "length lds - (i + BATCH_SIZE) < length lds - i"
      using True by (simp add: BATCH_SIZE_def)
    have len: "length ?b + (length lds - (i + BATCH_SIZE)) = length lds - i"
      using True by (simp add: min_def)
    have ch: "chunks BATCH_SIZE (drop i lds) = ?b # chunks BATCH_SIZE (drop (i + BATCH_SIZE) lds)"
      using True chunks_step [of BATCH_SIZE "drop i lds"]
      by (simp add: BATCH_SIZE_def add.commute)
    have rows: "new_rows (row_defaults st) (length (leads st)) (drop i lds) =
        new_rows (row_defaults st) (length (leads st)) ?b @
        new_rows (row_defaults st) (length (leads st) + length ?b) (drop (i + BATCH_SIZE) lds)"
      using new_rows_append [of "row_defaults st" "length (leads st)" ?b "drop (i + BATCH_SIZE) lds"]
      by (simp only: drop_split)
    have "insert_loop fault lds i c st = insert_loop fault lds (i + BATCH_SIZE) (c + length ?b) ?st"
      using True f0 by (rule insert_loop_ok_step)
    also have "\<dots> = (Inr (c + length ?b + (length lds - (i + BATCH_SIZE))),
        ?st\<lparr>leads := leads ?st @ new_rows (row_defaults ?st) (length (leads ?st)) (drop (i + BATCH_SIZE) lds),
           insert_log := insert_log ?st @ chunks BATCH_SIZE (drop (i + BATCH_SIZE) lds)\<rparr>)"
      using dec fs by (rule less.hyps)
    also have "\<dots> = (Inr (c + (length lds - i)),
        st\<lparr>leads := leads st @ new_rows (row_defaults st) (length (leads st)) (drop i lds),
           insert_log := insert_log st @ chunks BATCH_SIZE (drop i lds)\<rparr>)"
      unfolding ch rows using len by (simp add: length_new_rows)
    finally show ?thesis .
  qed
qed

lemma insert_loop_fails_at:
  "(\<forall>j<k. fault (length (insert_log st) + j) = None) \<Longrightarrow>
   fault (length (insert_log st) + k) = Some e \<Longrightarrow>
   i + k * BATCH_SIZE < length lds \<Longrightarrow>
   insert_loop fault lds i c st =
     (Inl (Error (''Failed to insert leads: '' @ message e)),
      st\<lparr>leads := leads st @ new_rows (row_defaults st) (length (leads st))
                                 (take (k * BATCH_SIZE) (drop i lds)),
         insert_log := insert_log st @ take (Suc k) (chunks BATCH_SIZE (drop i lds))\<rparr>)"
proof (induction k arbitrary: i c st)
  case 0
  then have lt: "i < length lds" by simp
  have ch: "chunks BATCH_SIZE (drop i lds) =
      take BATCH_SIZE (drop i lds) # chunks BATCH_SIZE (drop (i + BATCH_SIZE) lds)"
    using lt chunks_step [of BATCH_SIZE "drop i lds"]
    by (simp add: BATCH_SIZE_def add.commute)
  from 0 have "fault (length (insert_log st)) = Some e" by simp
  with lt show ?case
    by (simp add: insert_loop_fail_step ch)
next
  case (Suc k)
  then have lt: "i < length lds" by simp
  let ?b = "take BATCH_SIZE (drop i lds)"
  let ?st = "st\<lparr>leads := leads st @ new_rows (row_defaults st) (length (leads st)) ?b,
                 insert_log := insert_log st @ [?b]\<rparr>"
  have f0: "fault (length (insert_log st)) = None"
    using Suc.prems(1) [rule_format, of 0] by simp
  have fs: "\<forall>j<k. fault (length (insert_log ?st) + j) = None"
  proof (intro allI impI)
    fix j assume "j < k"
    then show "fault (length (insert_log ?st) + j) = None"
      using Suc.prems(1) [rule_format, of "Suc j"] by simp
  qed
  have fk: "fault (length (insert_log ?st) + k) = Some e"
    using Suc.prems(2) by simp
  have bound: "i + BATCH_SIZE + k * BATCH_SIZE < length lds"
    using Suc.prems(3) by (simp add: add.assoc)
  have lenb: "length ?b = BATCH_SIZE"
  proof -
    have "BATCH_SIZE \<le> length lds - i" using Suc.prems(3) by simp
    then show ?thesis by simp
  qed
  have ch: "chunks BATCH_SIZE (drop i lds) = ?b # chunks BATCH_SIZE (drop (i + BATCH_SIZE) lds)"
    using lt chunks_step [of BATCH_SIZE "drop i lds"]
    by (simp add: BATCH_SIZE_def add.commute)
  have tk: "take (Suc k * BATCH_SIZE) (drop i lds) =
      ?b @ take (k * BATCH_SIZE) (drop (i + BATCH_SIZE) lds)"
    using take_add [of BATCH_SIZE "k * BATCH_SIZE" "drop i lds"]
    by (simp add: add.commute)
  have rows: "new_rows (row_defaults st) (length (leads st)) (take (Suc k * BATCH_SIZE) (drop i lds)) =
      new_rows (row_defaults st) (length (leads st)) ?b @
      new_rows (row_defaults st) (length (leads st) + length ?b)
        (take (k * BATCH_SIZE) (drop (i + BATCH_SIZE) lds))"
    unfolding tk by (rule new_rows_append)
  have "insert_loop fault lds i c st = insert_loop fault lds (i + BATCH_SIZE) (c + length ?b) ?st"
    using lt f0 by (rule insert_loop_ok_step)
  also have "\<dots> = (Inl (Error (''Failed to insert leads: '' @ message e)),
      ?st\<lparr>leads := leads ?st @ new_rows (row_defaults ?st) (length (leads ?st))
                                   (take (k * BATCH_SIZE) (drop (i + BATCH_SIZE) lds)),
          insert_log := insert_log ?st @ take (Suc k) (chunks BATCH_SIZE (drop (i + BATCH_SIZE) lds))\<rparr>)"
    using fs fk bound by (rule Suc.IH)
  also have "\<dots> = (Inl (Error (''Failed to insert leads: '' @ message e)),
      st\<lparr>leads := leads st @ new_rows (row_defaults st) (length (leads st))
                                 (take (Suc k * BATCH_SIZE) (drop i lds)),
         insert_log := insert_log st @ take (Suc (Suc k)) (chunks BATCH_SIZE (drop i lds))\<rparr>)"
    unfolding ch rows by (simp add: length_new_rows)
  finally show ?case .
qed

lemma chunks_length: "length (chunks n xs) = (length xs + n - 1) div n"
  by (simp add: chunks_def)

lemma chunks_nth:
  "k < length (chunks n xs) \<Longrightarrow> chunks n xs ! k = slice xs (k * n) (k * n + n)"
  by (simp add: chunks_def)

lemma slice_length: "length (slice xs (k * n) (k * n + n)) = min n (length xs - k * n)"
  by (simp add: slice_def min.commute)

lemma chunks_concat: "0 < n \<Longrightarrow> concat (chunks n xs) = xs"
proof (induction "length xs" arbitrary: xs rule: less_induct)
  case less
  show ?case
  proof (cases "xs = []")
    case True
    then show ?thesis by (simp add: chunks_Nil)
  next
    case False
    with less.prems have "length (drop n xs) < length xs" by simp
    then have "concat (chunks n (drop n xs)) = drop n xs"
      using less.prems by (rule less.hyps)
    with False less.prems show ?thesis
      by (simp add: chunks_step)
  qed
qed

lemma ceiling_div_500: "\<lceil>real m / 500\<rceil> = int ((m + 499) div 500)"
proof -
  have "\<lceil>real m / 500\<rceil> = \<lceil>real_of_int (int m) / real_of_int 500\<rceil>" by simp
  also have "\<dots> = - (- int m div 500)" by (rule ceiling_divide_eq_div)
  also have "\<dots> = (int m + 499) div 500" by linarith
  also have "\<dots> = int ((m + 499) div 500)" by (simp add: zdiv_int)
  finally show ?thesis .
qed

lemma chunks_1200:
  assumes "length xs = 1200"
  shows "map length (chunks 500 xs) = [500, 500, 200]"
proof -
  have "[0..<3] = [0, 1, 2]" by (simp add: upt_rec)
  with assms show ?thesis
    by (simp add: chunks_def slice_def)
qed


lemma bulkInsertLeads_all_ok:
  assumes "\<forall>j. fault (length (insert_log st) + j) = None"
  shows "bulkInsertLeads fault st lds =
     (Inr (length lds),
      st\<lparr>leads := leads st @ new_rows (row_defaults st) (length (leads st)) lds,
         insert_log := insert_log st @ chunks BATCH_SIZE lds\<rparr>)"
  using insert_loop_all_ok [OF assms, of lds 0 0] by (simp add: bulkInsertLeads_def)

lemma bulkInsertLeads_fails_at:
  assumes "\<forall>j<k. fault (length (insert_log st) + j) = None"
    and "fault (length (insert_log st) + k) = Some e"
    and "k * BATCH_SIZE < length lds"
  shows "bulkInsertLeads fault st lds =
     (Inl (Error (''Failed to insert leads: '' @ message e)),
      st\<lparr>leads := leads st @ new_rows (row_defaults st) (length (leads st))
                                 (take (k * BATCH_SIZE) lds),
         insert_log := insert_log st @ take (Suc k) (chunks BATCH_SIZE lds)\<rparr>)"
  using insert_loop_fails_at [OF assms(1) assms(2), of 0 lds 0] assms(3)
  by (simp add: bulkInsertLeads_def)

text \<open>
  C1 (as amended). If the insert of a chunk fails (chunk \<open>k\<close>, counted from 0, after
  \<open>k\<close> successful chunks), \<open>bulkInsertLeads\<close> throws an error whose message is
  \<open>Failed to insert leads:\<close> followed by the message of the storage error; the leads of
  the chunks before it stay in the table, \<open>k * 500\<close> rows behind the rows that were
  there; the failed chunk stores nothing and no later chunk is attempted.
\<close>

theorem bulkInsertLeads_chunk_failure:
  assumes "k * BATCH_SIZE < length lds"
    and "\<forall>j<k. fault (length (insert_log st) + j) = None"
    and "fault (length (insert_log st) + k) = Some e"
  shows "fst (bulkInsertLeads fault st lds) =
           Inl (Error (''Failed to insert leads: '' @ message e))
       \<and> leads (snd (bulkInsertLeads fault st lds)) =
           leads st @ new_rows (row_defaults st) (length (leads st))
                        (map toLeadInsert (take (k * BATCH_SIZE) lds))
       \<and> length (leads (snd (bulkInsertLeads fault st lds))) = length (leads st) + k * 500
       \<and> length (insert_log (snd (bulkInsertLeads fault st lds))) =
           length (insert_log st) + k + 1"
proof -
  have less: "k * 500 < length lds"
    using assms(1) by (simp add: BATCH_SIZE_def)
  have "k < (length lds + 499) div 500"
    using less by simp
  then have "Suc k \<le> length (chunks BATCH_SIZE lds)"
    by (simp add: chunks_length BATCH_SIZE_def)
  then have "length (take (Suc k) (chunks BATCH_SIZE lds)) = k + 1"
    by simp
  moreover have "length (take (k * 500) lds) = k * 500"
    using less by simp
  ultimately show ?thesis
    unfolding bulkInsertLeads_fails_at [OF assms(2) assms(3) assms(1)]
    by (simp add: map_toLeadInsert length_new_rows BATCH_SIZE_def)
qed

theorem bulkInsertLeads_chunk_failure_witness:
  "fst (bulkInsertLeads (fail_at 1) empty_db (replicate 501 a_lead)) =
     Inl (Error ''Failed to insert leads: connection lost'')
   \<and> length (leads (snd (bulkInsertLeads (fail_at 1) empty_db (replicate 501 a_lead)))) = 500
   \<and> length (insert_log (snd (bulkInsertLeads (fail_at 1) empty_db (replicate 501 a_lead)))) = 2"
  using bulkInsertLeads_chunk_failure [of 1 "replicate 501 a_lead" "fail_at 1" empty_db an_error]
  by (simp add: fail_at_def empty_db_def an_error_def BATCH_SIZE_def length_new_rows)

text \<open>
  C1 (as stated) fails: the number of committed records is not reported. A run that
  fails after committing 500 records and a run that fails after committing none hand
  the same value to the caller.
\<close>

theorem bulkInsertLeads_count_not_reported:
  "fst (bulkInsertLeads (fail_at 1) empty_db (replicate 501 a_lead)) =
     fst (bulkInsertLeads (fail_at 0) empty_db [a_lead])
   \<and> length (leads (snd (bulkInsertLeads (fail_at 1) empty_db (replicate 501 a_lead)))) = 500
   \<and> length (leads (snd (bulkInsertLeads (fail_at 0) empty_db [a_lead]))) = 0"
proof -
  have a: "bulkInsertLeads (fail_at 1) empty_db (replicate 501 a_lead) =
      (Inl (Error (''Failed to insert leads: '' @ message an_error)),
       empty_db\<lparr>leads := leads empty_db @ new_rows (row_defaults empty_db)
                   (length (leads empty_db)) (take (1 * BATCH_SIZE) (replicate 501 a_lead)),
         insert_log := insert_log empty_db @
                   take (Suc 1) (chunks BATCH_SIZE (replicate 501 a_lead))\<rparr>)"
    by (rule bulkInsertLeads_fails_at) (simp_all add: fail_at_def empty_db_def BATCH_SIZE_def)
  have b: "bulkInsertLeads (fail_at 0) empty_db [a_lead] =
      (Inl (Error (''Failed to insert leads: '' @ message an_error)),
       empty_db\<lparr>leads := leads empty_db @ new_rows (row_defaults empty_db)
                   (length (leads empty_db)) (take (0 * BATCH_SIZE) [a_lead]),
         insert_log := insert_log empty_db @ take (Suc 0) (chunks BATCH_SIZE [a_lead])\<rparr>)"
    by (rule bulkInsertLeads_fails_at) (simp_all add: fail_at_def empty_db_def BATCH_SIZE_def)
  show ?thesis
    unfolding a b by (simp add: length_new_rows BATCH_SIZE_def empty_db_def)
qed

lemma insert_loop_log_prefix:
  "\<exists>m. insert_log (snd (insert_loop fault lds i c st)) =
         insert_log st @ take m (chunks BATCH_SIZE (drop i lds))"
proof (induction "length lds - i" arbitrary: i c st rule: less_induct)
  case less
  show ?case
  proof (cases "i < length lds")
    case False
    then have "insert_log (snd (insert_loop fault lds i c st)) =
        insert_log st @ take 0 (chunks BATCH_SIZE (drop i lds))"
      by (simp add: insert_loop_done)
    then show ?thesis ..
  next
    case True
    let ?b = "take BATCH_SIZE (drop i lds)"
    have ch: "chunks BATCH_SIZE (drop i lds) = ?b # chunks BATCH_SIZE (drop (i + BATCH_SIZE) lds)"
      using True chunks_step [of BATCH_SIZE "drop i lds"]
      by (simp add: BATCH_SIZE_def add.commute)
    show ?thesis
    proof (cases "fault (length (insert_log st))")
      case (Some e)
      with True have "insert_log (snd (insert_loop fault lds i c st)) =
          insert_log st @ take 1 (chunks BATCH_SIZE (drop i lds))"
        by (simp add: insert_loop_fail_step ch)
      then show ?thesis ..
    next
      case None
      let ?st = "st\<lparr>leads := leads st @ new_rows (row_defaults st) (length (leads st)) ?b,
                     insert_log := insert_log st @ [?b]\<rparr>"
      let ?r = "insert_loop fault lds (i + BATCH_SIZE) (c + length ?b) ?st"
      have step: "insert_loop fault lds i c st = ?r"
        using True None by (rule insert_loop_ok_step)
      have dec: "length lds - (i + BATCH_SIZE) < length lds - i"
        using True by (simp add: BATCH_SIZE_def)
      have "\<exists>m. insert_log (snd ?r) =
          insert_log ?st @ take m (chunks BATCH_SIZE (drop (i + BATCH_SIZE) lds))"
        using dec by (rule less.hyps)
      then obtain m where "insert_log (snd ?r) =
          insert_log ?st @ take m (chunks BATCH_SIZE (drop (i + BATCH_SIZE) lds))" ..
      then have "insert_log (snd (insert_loop fault lds i c st)) =
          insert_log st @ take (Suc m) (chunks BATCH_SIZE (drop i lds))"
        unfolding step ch by simp
      then show ?thesis ..
    qed
  qed
qed

lemma bulkInsertLeads_log_prefix:
  "\<exists>m. insert_log (snd (bulkInsertLeads fault st lds)) =
         insert_log st @ take m (chunks BATCH_SIZE lds)"
  using insert_loop_log_prefix [of fault lds 0 0 st] by (simp add: bulkInsertLeads_def)

text \<open>
  C2. The insert statements \<open>bulkInsertLeads\<close> issues are the chunks of the sequence,
  in order, from the first one on: the concatenation of the chunks is the sequence, there
  are \<open>ceil(n / 500)\<close> of them, chunk \<open>k\<close> holds the records from position \<open>500 * k\<close>
  on, 500 of them or the remainder; 1200 leads make three chunks of sizes 500, 500 and
  200. When no insert fails, every chunk is issued, all leads are stored in order, and
  the result is the number of leads given.
\<close>

theorem bulkInsertLeads_chunks:
  "(\<exists>m. insert_log (snd (bulkInsertLeads fault st lds)) =
          insert_log st @ take m (chunks BATCH_SIZE (map toLeadInsert lds)))
   \<and> concat (chunks BATCH_SIZE (map toLeadInsert lds)) = map toLeadInsert lds
   \<and> int (length (chunks BATCH_SIZE (map toLeadInsert lds))) = \<lceil>real (length lds) / 500\<rceil>
   \<and> (\<forall>k<length (chunks BATCH_SIZE (map toLeadInsert lds)).
         chunks BATCH_SIZE (map toLeadInsert lds) ! k =
           map toLeadInsert (slice lds (k * 500) (k * 500 + 500))
         \<and> length (chunks BATCH_SIZE (map toLeadInsert lds) ! k) =
           min 500 (length lds - k * 500))
   \<and> (length lds = 1200 \<longrightarrow>
         map length (chunks BATCH_SIZE (map toLeadInsert lds)) = [500, 500, 200])
   \<and> ((\<forall>j. fault (length (insert_log st) + j) = None) \<longrightarrow>
         fst (bulkInsertLeads fault st lds) = Inr (length lds)
         \<and> leads (snd (bulkInsertLeads fault st lds)) =
             leads st @ new_rows (row_defaults st) (length (leads st)) (map toLeadInsert lds)
         \<and> insert_log (snd (bulkInsertLeads fault st lds)) =
             insert_log st @ chunks BATCH_SIZE (map toLeadInsert lds))"
proof -
  have pre: "\<exists>m. insert_log (snd (bulkInsertLeads fault st lds)) =
      insert_log st @ take m (chunks BATCH_SIZE lds)"
    by (rule bulkInsertLeads_log_prefix)
  have run: "(\<forall>j. fault (length (insert_log st) + j) = None) \<longrightarrow>
      fst (bulkInsertLeads fault st lds) = Inr (length lds)
      \<and> leads (snd (bulkInsertLeads fault st lds)) =
          leads st @ new_rows (row_defaults st) (length (leads st)) lds
      \<and> insert_log (snd (bulkInsertLeads fault st lds)) = insert_log st @ chunks BATCH_SIZE lds"
  proof
    assume ok: "\<forall>j. fault (length (insert_log st) + j) = None"
    show "fst (bulkInsertLeads fault st lds) = Inr (length lds)
      \<and> leads (snd (bulkInsertLeads fault st lds)) =
          leads st @ new_rows (row_defaults st) (length (leads st)) lds
      \<and> insert_log (snd (bulkInsertLeads fault st lds)) = insert_log st @ chunks BATCH_SIZE lds"
      unfolding bulkInsertLeads_all_ok [OF ok] by simp
  qed
  have cat: "concat (chunks BATCH_SIZE lds) = lds"
    by (rule chunks_concat) (simp add: BATCH_SIZE_def)
  have cnt: "int (length (chunks BATCH_SIZE lds)) = \<lceil>real (length lds) / 500\<rceil>"
    by (simp add: chunks_length BATCH_SIZE_def ceiling_div_500)
  have nth: "\<forall>k<length (chunks BATCH_SIZE lds).
      chunks BATCH_SIZE lds ! k = slice lds (k * 500) (k * 500 + 500)
      \<and> length (chunks BATCH_SIZE lds ! k) = min 500 (length lds - k * 500)"
    using chunks_nth [of _ BATCH_SIZE lds] slice_length [of lds _ 500]
    by (simp add: BATCH_SIZE_def)
  have big: "length lds = 1200 \<longrightarrow> map length (chunks BATCH_SIZE lds) = [500, 500, 200]"
    by (simp add: chunks_1200 BATCH_SIZE_def)
  show ?thesis
    unfolding map_toLeadInsert using pre run cat cnt nth big by (intro conjI)
qed

theorem bulkInsertLeads_chunks_witness:
  "fst (bulkInsertLeads never_fail empty_db (replicate 1200 a_lead)) = Inr 1200
   \<and> map length (insert_log (snd (bulkInsertLeads never_fail empty_db (replicate 1200 a_lead)))) =
       [500, 500, 200]
   \<and> length (leads (snd (bulkInsertLeads never_fail empty_db (replicate 1200 a_lead)))) = 1200"
  using bulkInsertLeads_chunks [of never_fail empty_db "replicate 1200 a_lead"]
  by (simp add: never_fail_def empty_db_def length_new_rows)

section \<open>Statistics of a campaign\<close>

lemma matching_campaign:
  "matching st [Eq Col_campaign_run_id cid] = filter (\<lambda>l. campaign_run_id l = cid) (leads st)"
  by (simp add: matching_def)

lemma foldl_plus: "foldl (\<lambda>sum l. sum + f l) a xs = a + sum_list (map f xs)"
  for a :: real
  by (induction xs arbitrary: a) simp_all

lemma tier_counts:
  "\<forall>l\<in>set xs. tier l \<in> {''Low'', ''Medium'', ''High''} \<Longrightarrow>
   length (filter (\<lambda>l. tier l = ''High'') xs)
   + length (filter (\<lambda>l. tier l = ''Medium'') xs)
   + length (filter (\<lambda>l. tier l = ''Low'') xs) = length xs"
  by (induction xs) auto

lemma stats_empty:
  assumes "filter (\<lambda>l. campaign_run_id l = cid) (leads st) = []"
  shows "getLeadStatsByCampaign None st cid =
     (Inr \<lparr>LeadStats.total = 0, highRisk = 0, mediumRisk = 0, lowRisk = 0, avgProbability = None\<rparr>, st)"
  using assms by (simp add: getLeadStatsByCampaign_def db_select_def matching_campaign)

lemma stats_nonempty:
  assumes "rows = map risk_level_probability (filter (\<lambda>l. campaign_run_id l = cid) (leads st))"
    and "rows \<noteq> []"
  shows "getLeadStatsByCampaign None st cid =
     (Inr \<lparr>LeadStats.total = length rows,
           highRisk = length (filter (\<lambda>l. risk_level l = ''High'') rows),
           mediumRisk = length (filter (\<lambda>l. risk_level l = ''Medium'') rows),
           lowRisk = length (filter (\<lambda>l. risk_level l = ''Low'') rows),
           avgProbability =
             Some (real_of_int (Math_round
               (sum_list (map probability rows) / real (length rows) * 10000)) / 10000)\<rparr>, st)"
  using assms
  by (simp add: getLeadStatsByCampaign_def db_select_def matching_campaign Let_def foldl_plus)

lemma stats_fault:
  "getLeadStatsByCampaign (Some e) st cid =
     (Inl (Error (''Failed to fetch lead stats: '' @ message e)), st)"
  by (simp add: getLeadStatsByCampaign_def db_select_def failure_def)


lemma round_near: "\<bar>real_of_int (Math_round (x * 10000)) / 10000 - x\<bar> \<le> 1 / 20000"
proof -
  have "\<bar>real_of_int \<lfloor>x * 10000 + 1 / 2\<rfloor> - x * 10000\<bar> \<le> 1 / 2"
    by linarith
  then show ?thesis
    by (simp add: Math_round_def field_simps)
qed

lemma row_of_a_lead:
  "campaign_run_id (new_row d k a_lead) = ''c1''"
  "CreateLeadPayload.risk_level (new_row d k a_lead) = ''Low''"
  "CreateLeadPayload.probability (new_row d k a_lead) = 1 / 32"
  by (simp_all add: new_row_def a_lead_def CreateLeadPayload.extend_def)

text \<open>
  C3. When every lead of the campaign carries one of the risk levels \<open>Low\<close>,
  \<open>Medium\<close> and \<open>High\<close>, and the storage answers the read, the statistics satisfy
  \<open>highRisk + mediumRisk + lowRisk = total\<close>, and \<open>total\<close> is the number of leads of
  the campaign in the table.
\<close>

theorem stats_tiers_sum_to_total:
  assumes "\<forall>l\<in>set (leads st). campaign_run_id l = cid \<longrightarrow>
             CreateLeadPayload.risk_level l \<in> {''Low'', ''Medium'', ''High''}"
  shows "\<exists>s. fst (getLeadStatsByCampaign None st cid) = Inr s
           \<and> highRisk s + mediumRisk s + lowRisk s = LeadStats.total s
           \<and> LeadStats.total s = length (filter (\<lambda>l. campaign_run_id l = cid) (leads st))"
proof (cases "filter (\<lambda>l. campaign_run_id l = cid) (leads st) = []")
  case True
  then show ?thesis
    by (simp add: stats_empty)
next
  case False
  define rows where
    "rows = map risk_level_probability (filter (\<lambda>l. campaign_run_id l = cid) (leads st))"
  have ne: "rows \<noteq> []"
    using False by (simp add: rows_def)
  have "\<forall>l\<in>set rows. risk_level l \<in> {''Low'', ''Medium'', ''High''}"
    using assms by (auto simp: rows_def risk_level_probability_def)
  then have "length (filter (\<lambda>l. risk_level l = ''High'') rows)
      + length (filter (\<lambda>l. risk_level l = ''Medium'') rows)
      + length (filter (\<lambda>l. risk_level l = ''Low'') rows) = length rows"
    by (rule tier_counts)
  moreover have "length rows = length (filter (\<lambda>l. campaign_run_id l = cid) (leads st))"
    by (simp add: rows_def)
  ultimately show ?thesis
    unfolding stats_nonempty [OF rows_def ne] by simp
qed

theorem stats_tiers_sum_to_total_witness:
  "\<exists>s. fst (getLeadStatsByCampaign None one_lead_db ''c1'') = Inr s
      \<and> highRisk s + mediumRisk s + lowRisk s = 1 \<and> LeadStats.total s = 1"
  using stats_tiers_sum_to_total [of one_lead_db "''c1''"]
  by (auto simp: one_lead_db_def empty_db_def row_of_a_lead)

text \<open>
  C4. For a campaign without leads in the table, the statistics are \<open>total = 0\<close>, the
  three counts \<open>0\<close> and \<open>avgProbability = null\<close>: a result, not an error.
\<close>

theorem stats_of_empty_campaign:
  assumes "length (filter (\<lambda>l. campaign_run_id l = cid) (leads st)) = 0"
  shows "fst (getLeadStatsByCampaign None st cid) =
     Inr \<lparr>LeadStats.total = 0, highRisk = 0, mediumRisk = 0, lowRisk = 0, avgProbability = None\<rparr>"
  using assms by (simp add: stats_empty)

theorem stats_of_empty_campaign_witness:
  "length (filter (\<lambda>l. campaign_run_id l = ''c2'') (leads one_lead_db)) = 0
   \<and> fst (getLeadStatsByCampaign None one_lead_db ''c2'') =
     Inr \<lparr>LeadStats.total = 0, highRisk = 0, mediumRisk = 0, lowRisk = 0, avgProbability = None\<rparr>"
proof -
  have h: "length (filter (\<lambda>l. campaign_run_id l = ''c2'') (leads one_lead_db)) = 0"
    by (simp add: one_lead_db_def empty_db_def row_of_a_lead)
  show ?thesis
    using h stats_of_empty_campaign [OF h] by simp
qed

text \<open>
  C5 (as stated) fails: the average is the mean rounded to four decimal places. For a
  campaign whose one lead has probability \<open>1 / 32 = 0.03125\<close> the mean is \<open>0.03125\<close>
  and \<open>avgProbability\<close> is \<open>0.0313\<close>.
\<close>

theorem stats_average_is_not_the_mean:
  "fst (getLeadStatsByCampaign None one_lead_db ''c1'') =
     Inr \<lparr>LeadStats.total = 1, highRisk = 0, mediumRisk = 0, lowRisk = 1,
          avgProbability = Some (313 / 10000)\<rparr>
   \<and> sum_list (map CreateLeadPayload.probability (leads one_lead_db))
       / real (length (leads one_lead_db)) = 1 / 32
   \<and> (313 / 10000 :: real) \<noteq> 1 / 32"
proof -
  have rows: "[risk_level_probability (new_row (row_defaults empty_db) 0 a_lead)] =
      map risk_level_probability (filter (\<lambda>l. campaign_run_id l = ''c1'') (leads one_lead_db))"
    by (simp add: one_lead_db_def row_of_a_lead)
  have "getLeadStatsByCampaign None one_lead_db ''c1'' =
      (Inr \<lparr>LeadStats.total = 1, highRisk = 0, mediumRisk = 0, lowRisk = 1,
            avgProbability = Some (313 / 10000)\<rparr>, one_lead_db)"
    using stats_nonempty [OF rows]
    by (simp add: risk_level_probability_def row_of_a_lead Math_round_def)
  then show ?thesis
    by (simp add: one_lead_db_def row_of_a_lead)
qed

text \<open>
  C5 (as amended). For a campaign with at least one lead, \<open>avgProbability\<close> is the
  arithmetic mean of the probabilities of its leads rounded to four decimal places,
  \<open>Math.round(mean * 10000) / 10000\<close>, which is within \<open>0.00005\<close> of the mean.
\<close>

theorem stats_average_rounded_mean:
  assumes "campaign_leads = filter (\<lambda>l. campaign_run_id l = cid) (leads st)"
    and "campaign_leads \<noteq> []"
    and "mean = sum_list (map CreateLeadPayload.probability campaign_leads)
                  / real (length campaign_leads)"
  shows "\<exists>s. fst (getLeadStatsByCampaign None st cid) = Inr s
           \<and> avgProbability s = Some (real_of_int \<lfloor>mean * 10000 + 1 / 2\<rfloor> / 10000)
           \<and> \<bar>real_of_int \<lfloor>mean * 10000 + 1 / 2\<rfloor> / 10000 - mean\<bar> \<le> 1 / 20000"
proof -
  define rows where
    "rows = map risk_level_probability (filter (\<lambda>l. campaign_run_id l = cid) (leads st))"
  have ne: "rows \<noteq> []"
    using assms(1,2) by (simp add: rows_def)
  have "map probability rows = map CreateLeadPayload.probability campaign_leads"
    by (simp add: rows_def assms(1) risk_level_probability_def o_def)
  moreover have "length rows = length campaign_leads"
    by (simp add: rows_def assms(1))
  ultimately have m: "sum_list (map probability rows) / real (length rows) = mean"
    by (simp add: assms(3))
  have near: "\<bar>real_of_int \<lfloor>mean * 10000 + 1 / 2\<rfloor> / 10000 - mean\<bar> \<le> 1 / 20000"
    using round_near [of mean] by (simp only: Math_round_def)
  have "fst (getLeadStatsByCampaign None st cid) =
      Inr \<lparr>LeadStats.total = length rows,
           highRisk = length (filter (\<lambda>l. risk_level l = ''High'') rows),
           mediumRisk = length (filter (\<lambda>l. risk_level l = ''Medium'') rows),
           lowRisk = length (filter (\<lambda>l. risk_level l = ''Low'') rows),
           avgProbability = Some (real_of_int \<lfloor>mean * 10000 + 1 / 2\<rfloor> / 10000)\<rparr>"
    unfolding stats_nonempty [OF rows_def ne] m by (simp only: Math_round_def fst_conv)
  with near show ?thesis
    by (intro exI [of _ "\<lparr>LeadStats.total = length rows,
           highRisk = length (filter (\<lambda>l. risk_level l = ''High'') rows),
           mediumRisk = length (filter (\<lambda>l. risk_level l = ''Medium'') rows),
           lowRisk = length (filter (\<lambda>l. risk_level l = ''Low'') rows),
           avgProbability = Some (real_of_int \<lfloor>mean * 10000 + 1 / 2\<rfloor> / 10000)\<rparr>"]) simp
qed

theorem stats_average_rounded_mean_witness:
  "\<exists>s. fst (getLeadStatsByCampaign None one_lead_db ''c1'') = Inr s
      \<and> avgProbability s = Some (313 / 10000)"
  using stats_average_rounded_mean
    [of "leads one_lead_db" "''c1''" one_lead_db "1 / 32"]
  by (auto simp: one_lead_db_def empty_db_def row_of_a_lead)

text \<open>
  C6. \<open>getLeadStatsByCampaign\<close> leaves the store as it found it, so a second run
  returns what the first returned; and the result depends on the store only through the
  leads of the campaign: while these are unchanged, the result is the same.
\<close>

theorem stats_read_only:
  "snd (getLeadStatsByCampaign fault st cid) = st
   \<and> getLeadStatsByCampaign fault (snd (getLeadStatsByCampaign fault st cid)) cid =
       getLeadStatsByCampaign fault st cid
   \<and> (filter (\<lambda>l. campaign_run_id l = cid) (leads st') =
        filter (\<lambda>l. campaign_run_id l = cid) (leads st) \<longrightarrow>
      fst (getLeadStatsByCampaign fault st' cid) = fst (getLeadStatsByCampaign fault st cid))"
proof -
  have same: "snd (getLeadStatsByCampaign fault st cid) = st"
    by (simp add: getLeadStatsByCampaign_def db_select_def Let_def split: option.splits)
  have dep: "filter (\<lambda>l. campaign_run_id l = cid) (leads st') =
        filter (\<lambda>l. campaign_run_id l = cid) (leads st) \<longrightarrow>
      fst (getLeadStatsByCampaign fault st' cid) = fst (getLeadStatsByCampaign fault st cid)"
    by (simp add: getLeadStatsByCampaign_def db_select_def matching_campaign Let_def
        split: option.splits)
  show ?thesis
    using dep by (simp add: same)
qed

theorem stats_read_only_witness:
  "snd (getLeadStatsByCampaign None one_lead_db ''c1'') = one_lead_db
   \<and> fst (getLeadStatsByCampaign None two_campaign_db ''c1'') =
       fst (getLeadStatsByCampaign None one_lead_db ''c1'')"
  using stats_read_only [of None one_lead_db "''c1''" two_campaign_db]
  by (simp add: one_lead_db_def two_campaign_db_def empty_db_def row_of_a_lead
      new_row_def CreateLeadPayload.extend_def)

section \<open>Listing the leads of a campaign\<close>

lemma matching_lead_query:
  "matching st (lead_query cid f) =
     filter (\<lambda>l. campaign_run_id l = cid \<and> satisfies_filters f l) (leads st)"
  unfolding matching_def lead_query_def satisfies_filters_def
  by (rule filter_cong [OF refl])
     (cases "riskLevel f"; cases "minProbability f"; cases "maxProbability f";
      cases "LeadFilterOptions.job f"; cases "LeadFilterOptions.education f"; simp; blast)

lemma leads_ok:
  "getLeadsByCampaign None st cid opts f =
     (Inr \<lparr>data =
             map toListItem
               (db_range
                  (((case LeadPaginationOptions.page opts of None \<Rightarrow> 1 | Some p \<Rightarrow> p) - 1)
                   * (case LeadPaginationOptions.pageSize opts of None \<Rightarrow> 25 | Some s \<Rightarrow> s))
                  (((case LeadPaginationOptions.page opts of None \<Rightarrow> 1 | Some p \<Rightarrow> p) - 1)
                   * (case LeadPaginationOptions.pageSize opts of None \<Rightarrow> 25 | Some s \<Rightarrow> s)
                   + (case LeadPaginationOptions.pageSize opts of None \<Rightarrow> 25 | Some s \<Rightarrow> s) - 1)
                  (order_probability_desc (matching st (lead_query cid f)))),
           total = length (matching st (lead_query cid f)),
           page = (case LeadPaginationOptions.page opts of None \<Rightarrow> 1 | Some p \<Rightarrow> p),
           pageSize = (case LeadPaginationOptions.pageSize opts of None \<Rightarrow> 25 | Some s \<Rightarrow> s),
           totalPages =
             Math_ceil_div (length (matching st (lead_query cid f)))
               (case LeadPaginationOptions.pageSize opts of None \<Rightarrow> 25 | Some s \<Rightarrow> s)\<rparr>,
      st)"
  by (simp add: getLeadsByCampaign_def db_select_range_def Let_def)

lemma db_range_window:
  "0 \<le> off \<Longrightarrow> 1 \<le> sz \<Longrightarrow>
   db_range off (off + sz - 1) rows = take (nat sz) (drop (nat off) rows)"
  by (simp add: db_range_def)

lemma order_probability_desc_mset: "mset (order_probability_desc rows) = mset rows"
  by (simp add: order_probability_desc_def)

lemma order_probability_desc_sorted:
  "sorted_wrt (\<lambda>a b. CreateLeadPayload.probability b \<le> CreateLeadPayload.probability a)
     (order_probability_desc rows)"
proof -
  have "sorted (map (\<lambda>l. - CreateLeadPayload.probability l) (order_probability_desc rows))"
    unfolding order_probability_desc_def by (rule sorted_sort_key)
  then show ?thesis
    by (simp add: sorted_map)
qed

lemma getLeadById_fault:
  "getLeadById (Some e) st i =
     (if code e = ''PGRST116'' then (Inr None, st)
      else (Inl (Error (''Failed to fetch lead: '' @ message e)), st))"
  by (simp add: getLeadById_def db_single_def failure_def)

lemma matching_id:
  "matching st [Eq Col_id i] = filter (\<lambda>l. Lead.lead_id l = i) (leads st)"
  by (simp add: matching_def)


lemma new_row_fields:
  "Lead.lead_id (new_row d k p) = fst (d k)"
  "campaign_run_id (new_row d k p) = campaign_run_id p"
  "CreateLeadPayload.probability (new_row d k p) = CreateLeadPayload.probability p"
  "CreateLeadPayload.job (new_row d k p) = CreateLeadPayload.job p"
  by (simp_all add: new_row_def CreateLeadPayload.extend_def Lead.fields_def)

lemma example_rows:
  "leads one_lead_db = [first_row]"
  "leads two_lead_db = [first_row, second_row]"
  by (simp_all add: one_lead_db_def two_lead_db_def first_row_def second_row_def)

lemma example_row_fields:
  "Lead.lead_id first_row = ''lead-''"
  "Lead.lead_id second_row = ''lead-i''"
  "campaign_run_id first_row = ''c1''"
  "campaign_run_id second_row = ''c1''"
  "CreateLeadPayload.probability first_row = 1 / 32"
  "CreateLeadPayload.probability second_row = 1 / 2"
  "CreateLeadPayload.job first_row = ''admin''"
  by (simp_all add: first_row_def second_row_def new_row_fields empty_db_def a_lead_def)

text \<open>
  C10. \<open>getLeadById\<close> returns \<open>null\<close> exactly when the storage answers with an error
  of code \<open>PGRST116\<close>, which is its answer when no row has the identifier; it throws for
  an error with any other code; and when one row has the identifier it returns that row.
  The store is left as it was.
\<close>

theorem getLeadById_result:
  "(fst (getLeadById fault st i) = Inr None \<longleftrightarrow>
      (\<exists>e. error (fst (db_single fault st [Eq Col_id i])) = Some e \<and> code e = ''PGRST116''))
   \<and> (\<forall>e. error (fst (db_single fault st [Eq Col_id i])) = Some e \<and> code e \<noteq> ''PGRST116'' \<longrightarrow>
         fst (getLeadById fault st i) = Inl (Error (''Failed to fetch lead: '' @ message e)))
   \<and> (\<forall>l. fault = None \<and> filter (\<lambda>l. Lead.lead_id l = i) (leads st) = [l] \<longrightarrow>
         fst (getLeadById fault st i) = Inr (Some l))
   \<and> (fault = None \<and> filter (\<lambda>l. Lead.lead_id l = i) (leads st) = [] \<longrightarrow>
         error (fst (db_single fault st [Eq Col_id i])) = Some no_single_row
         \<and> fst (getLeadById fault st i) = Inr None)
   \<and> snd (getLeadById fault st i) = st"
proof (cases fault)
  case (Some e)
  then show ?thesis
    by (simp add: getLeadById_fault db_single_def failure_def)
next
  case None
  show ?thesis
  proof (cases "filter (\<lambda>l. Lead.lead_id l = i) (leads st)")
    case Nil
    with None show ?thesis
      by (simp add: getLeadById_def db_single_def matching_id failure_def no_single_row_def)
  next
    case (Cons l ls)
    with None show ?thesis
      by (cases ls)
         (simp_all add: getLeadById_def db_single_def matching_id failure_def no_single_row_def)
  qed
qed

theorem getLeadById_result_witness:
  "fst (getLeadById None one_lead_db ''lead-'') = Inr (Some first_row)
   \<and> fst (getLeadById None one_lead_db ''lead-x'') = Inr None
   \<and> fst (getLeadById (Some an_error) one_lead_db ''lead-'') =
       Inl (Error ''Failed to fetch lead: connection lost'')"
  using getLeadById_result [of None one_lead_db "''lead-''"]
    getLeadById_result [of None one_lead_db "''lead-x''"]
    getLeadById_result [of "Some an_error" one_lead_db "''lead-''"]
  by (simp add: example_rows example_row_fields db_single_def failure_def an_error_def)


lemma ceil_div_pos: "1 \<le> sz \<Longrightarrow> Math_ceil_div n sz = Finite \<lceil>real n / real_of_int sz\<rceil>"
  by (simp add: Math_ceil_div_def)

lemma window_in_rows: "set (db_range a b rows) \<subseteq> set rows"
proof -
  have "set (take (nat (b - a + 1)) (drop (nat a) rows)) \<subseteq> set (drop (nat a) rows)"
    by (rule set_take_subset)
  also have "\<dots> \<subseteq> set rows"
    by (rule set_drop_subset)
  finally show ?thesis
    by (simp only: db_range_def)
qed

text \<open>
  C8. For a page number and a page size of at least 1 (the defaults 1 and 25 when they
  are omitted) and a storage that answers the read, \<open>getLeadsByCampaign\<close> returns the
  window of \<open>pageSize\<close> rows at offset \<open>(page - 1) * pageSize\<close> of the matching leads
  sorted by descending probability, hence at most \<open>pageSize\<close> leads, with \<open>total\<close> the
  number of all matching leads and \<open>totalPages = ceil(total / pageSize)\<close>.
\<close>

theorem getLeadsByCampaign_page:
  assumes "pg = (case LeadPaginationOptions.page opts of None \<Rightarrow> 1 | Some p \<Rightarrow> p)"
    and "sz = (case LeadPaginationOptions.pageSize opts of None \<Rightarrow> 25 | Some s \<Rightarrow> s)"
    and "1 \<le> pg" and "1 \<le> sz"
    and "sorted_rows = order_probability_desc (matching st (lead_query cid f))"
  shows "\<exists>r. fst (getLeadsByCampaign None st cid opts f) = Inr r
           \<and> data r = map toListItem (take (nat sz) (drop (nat ((pg - 1) * sz)) sorted_rows))
           \<and> int (length (data r)) \<le> sz
           \<and> mset sorted_rows = mset (matching st (lead_query cid f))
           \<and> sorted_wrt (\<lambda>a b. CreateLeadPayload.probability b \<le> CreateLeadPayload.probability a)
                sorted_rows
           \<and> total r = length (matching st (lead_query cid f))
           \<and> totalPages r = Finite \<lceil>real (total r) / real_of_int sz\<rceil>
           \<and> page r = pg \<and> pageSize r = sz
           \<and> (LeadPaginationOptions.page opts = None \<longrightarrow> page r = 1)
           \<and> (LeadPaginationOptions.pageSize opts = None \<longrightarrow> pageSize r = 25)"
proof -
  have off: "0 \<le> (pg - 1) * sz"
    using assms(3,4) by simp
  have win: "db_range ((pg - 1) * sz) ((pg - 1) * sz + sz - 1) sorted_rows =
      take (nat sz) (drop (nat ((pg - 1) * sz)) sorted_rows)"
    using off assms(4) by (rule db_range_window)
  have len: "int (length (take (nat sz) (drop (nat ((pg - 1) * sz)) sorted_rows))) \<le> sz"
    using assms(4) by simp
  have run: "getLeadsByCampaign None st cid opts f =
      (Inr \<lparr>data = map toListItem (take (nat sz) (drop (nat ((pg - 1) * sz)) sorted_rows)),
            total = length (matching st (lead_query cid f)),
            page = pg, pageSize = sz,
            totalPages = Finite \<lceil>real (length (matching st (lead_query cid f))) / real_of_int sz\<rceil>\<rparr>,
       st)"
    unfolding leads_ok assms(1) [symmetric] assms(2) [symmetric] assms(5) [symmetric] win
    by (simp add: ceil_div_pos [OF assms(4)])
  have dflt: "(LeadPaginationOptions.page opts = None \<longrightarrow> pg = 1)
      \<and> (LeadPaginationOptions.pageSize opts = None \<longrightarrow> sz = 25)"
    by (simp add: assms(1,2))
  show ?thesis
    unfolding run using len dflt
    by (simp add: assms(5) order_probability_desc_mset order_probability_desc_sorted)
qed

theorem getLeadsByCampaign_page_witness:
  "fst (getLeadsByCampaign None two_lead_db ''c1''
          \<lparr>LeadPaginationOptions.page = Some 2, pageSize = Some 1\<rparr> no_filters) =
     Inr \<lparr>data = [toListItem first_row], total = 2, page = 2, pageSize = 1,
          totalPages = Finite 2\<rparr>
   \<and> fst (getLeadsByCampaign None one_lead_db ''c1'' no_options no_filters) =
     Inr \<lparr>data = [toListItem first_row], total = 1, page = 1, pageSize = 25,
          totalPages = Finite 1\<rparr>"
proof -
  have m2: "matching two_lead_db (lead_query ''c1'' no_filters) = [first_row, second_row]"
    by (simp add: matching_lead_query satisfies_filters_def no_filters_def example_rows
        example_row_fields)
  have o2: "order_probability_desc [first_row, second_row] = [second_row, first_row]"
    by (simp add: order_probability_desc_def example_row_fields)
  have m1: "matching one_lead_db (lead_query ''c1'' no_filters) = [first_row]"
    by (simp add: matching_lead_query satisfies_filters_def no_filters_def example_rows
        example_row_fields)
  have o1: "order_probability_desc [first_row] = [first_row]"
    by (simp add: order_probability_desc_def)
  have c2: "\<lceil>real 2 / real_of_int 1\<rceil> = (2::int)"
    by simp
  have c1: "\<lceil>(1::real) / 25\<rceil> = 1"
    by (rule ceiling_unique) simp_all
  show ?thesis
    using getLeadsByCampaign_page [of 2 "\<lparr>LeadPaginationOptions.page = Some 2, pageSize = Some 1\<rparr>"
        1 "[second_row, first_row]" two_lead_db "''c1''" no_filters]
      getLeadsByCampaign_page [of 1 no_options 25 "[first_row]" one_lead_db "''c1''" no_filters]
    by (auto simp: m1 m2 o1 o2 c1 c2 no_options_def intro!: PaginatedLeads.equality)
qed

lemma order_probability_desc_set: "set (order_probability_desc rows) = set rows"
  by (simp add: order_probability_desc_def)

lemma page_items_match:
  assumes "x \<in> set (map toListItem (db_range a b (order_probability_desc (matching st (lead_query cid f)))))"
  shows "\<exists>l\<in>set (leads st). x = toListItem l \<and> campaign_run_id l = cid \<and> satisfies_filters f l"
proof -
  from assms obtain l where
    l: "l \<in> set (db_range a b (order_probability_desc (matching st (lead_query cid f))))"
      "x = toListItem l"
    by auto
  from l(1) have "l \<in> set (order_probability_desc (matching st (lead_query cid f)))"
    by (rule subsetD [OF window_in_rows])
  then have "l \<in> set (leads st) \<and> campaign_run_id l = cid \<and> satisfies_filters f l"
    by (simp add: order_probability_desc_set matching_lead_query)
  with l(2) show ?thesis
    by blast
qed

lemma whole_window:
  assumes "mset s = mset rows" and "int (length rows) \<le> sz"
  shows "set (db_range 0 (0 + sz - 1) s) = set rows"
proof -
  have len: "length s = length rows"
    using assms(1) by (rule mset_eq_length)
  have "nat sz \<ge> length s"
    using assms(2) len by linarith
  then have "take (nat sz) s = s"
    by (rule take_all)
  then have "db_range 0 (0 + sz - 1) s = s"
    by (simp add: db_range_def)
  moreover have "set s = set rows"
    using assms(1) by (rule mset_eq_setD)
  ultimately show ?thesis
    by (simp only:)
qed

text \<open>
  C7 (as amended). A lead is among the rows the query of \<open>getLeadsByCampaign\<close> matches
  if and only if it belongs to the campaign and satisfies each filter that is given and
  is not the empty string (risk level, job and education equal to the given value,
  probability within the closed range of the given bounds). \<open>total\<close> counts these rows
  and every entry of \<open>data\<close> is one of them. \<open>data\<close> is the requested page only: when
  the first page is requested with a page size of at least \<open>total\<close>, every such row is
  in \<open>data\<close>, so that a lead appears in \<open>data\<close> if and only if it is such a row.
\<close>

theorem getLeadsByCampaign_filters:
  "(l \<in> set (matching st (lead_query cid f)) \<longleftrightarrow>
      l \<in> set (leads st) \<and> campaign_run_id l = cid \<and> satisfies_filters f l)
   \<and> (\<exists>r. fst (getLeadsByCampaign None st cid opts f) = Inr r
         \<and> total r =
             length (filter (\<lambda>l. campaign_run_id l = cid \<and> satisfies_filters f l) (leads st))
         \<and> (\<forall>x\<in>set (data r). \<exists>l\<in>set (leads st).
               x = toListItem l \<and> campaign_run_id l = cid \<and> satisfies_filters f l)
         \<and> ((case LeadPaginationOptions.page opts of None \<Rightarrow> 1 | Some p \<Rightarrow> p) = 1
              \<and> int (total r)
                  \<le> (case LeadPaginationOptions.pageSize opts of None \<Rightarrow> 25 | Some s \<Rightarrow> s) \<longrightarrow>
             (\<forall>l\<in>set (leads st). campaign_run_id l = cid \<and> satisfies_filters f l \<longrightarrow>
                toListItem l \<in> set (data r))))"
proof (intro conjI)
  show "l \<in> set (matching st (lead_query cid f)) \<longleftrightarrow>
      l \<in> set (leads st) \<and> campaign_run_id l = cid \<and> satisfies_filters f l"
    by (simp add: matching_lead_query)
next
  let ?pg = "case LeadPaginationOptions.page opts of None \<Rightarrow> 1 | Some p \<Rightarrow> p"
  let ?sz = "case LeadPaginationOptions.pageSize opts of None \<Rightarrow> 25 | Some s \<Rightarrow> s"
  define rows where "rows = matching st (lead_query cid f)"
  define r where "r =
     \<lparr>data = map toListItem
               (db_range ((?pg - 1) * ?sz) ((?pg - 1) * ?sz + ?sz - 1) (order_probability_desc rows)),
      total = length rows, page = ?pg, pageSize = ?sz,
      totalPages = Math_ceil_div (length rows) ?sz\<rparr>"
  have run: "fst (getLeadsByCampaign None st cid opts f) = Inr r"
    unfolding leads_ok r_def rows_def by (simp only: fst_conv)
  have rows: "rows = filter (\<lambda>l. campaign_run_id l = cid \<and> satisfies_filters f l) (leads st)"
    unfolding rows_def by (rule matching_lead_query)
  have tot: "total r =
      length (filter (\<lambda>l. campaign_run_id l = cid \<and> satisfies_filters f l) (leads st))"
    by (simp add: r_def rows)
  have sound: "\<forall>x\<in>set (data r). \<exists>l\<in>set (leads st).
      x = toListItem l \<and> campaign_run_id l = cid \<and> satisfies_filters f l"
  proof
    fix x assume "x \<in> set (data r)"
    then have "x \<in> set (map toListItem
        (db_range ((?pg - 1) * ?sz) ((?pg - 1) * ?sz + ?sz - 1)
           (order_probability_desc (matching st (lead_query cid f)))))"
      by (simp add: r_def rows_def)
    then show "\<exists>l\<in>set (leads st).
        x = toListItem l \<and> campaign_run_id l = cid \<and> satisfies_filters f l"
      by (rule page_items_match)
  qed
  have whole: "?pg = 1 \<and> int (total r) \<le> ?sz \<longrightarrow>
      (\<forall>l\<in>set (leads st). campaign_run_id l = cid \<and> satisfies_filters f l \<longrightarrow>
         toListItem l \<in> set (data r))"
  proof (intro impI ballI)
    fix l
    assume first: "?pg = 1 \<and> int (total r) \<le> ?sz"
      and l: "l \<in> set (leads st)" "campaign_run_id l = cid \<and> satisfies_filters f l"
    have "int (length rows) \<le> ?sz"
      using first by (simp add: r_def)
    with order_probability_desc_mset [of rows]
    have "set (db_range 0 (0 + ?sz - 1) (order_probability_desc rows)) = set rows"
      by (rule whole_window)
    moreover have "l \<in> set rows"
      using l by (simp add: rows)
    ultimately have "l \<in> set (db_range ((?pg - 1) * ?sz) ((?pg - 1) * ?sz + ?sz - 1)
        (order_probability_desc rows))"
      using first by simp
    then show "toListItem l \<in> set (data r)"
      by (simp add: r_def)
  qed
  show "\<exists>r. fst (getLeadsByCampaign None st cid opts f) = Inr r
         \<and> total r =
             length (filter (\<lambda>l. campaign_run_id l = cid \<and> satisfies_filters f l) (leads st))
         \<and> (\<forall>x\<in>set (data r). \<exists>l\<in>set (leads st).
               x = toListItem l \<and> campaign_run_id l = cid \<and> satisfies_filters f l)
         \<and> (?pg = 1 \<and> int (total r) \<le> ?sz \<longrightarrow>
             (\<forall>l\<in>set (leads st). campaign_run_id l = cid \<and> satisfies_filters f l \<longrightarrow>
                toListItem l \<in> set (data r)))"
  proof (intro exI conjI)
    show "fst (getLeadsByCampaign None st cid opts f) = Inr r"
      by (rule run)
    show "total r =
        length (filter (\<lambda>l. campaign_run_id l = cid \<and> satisfies_filters f l) (leads st))"
      by (rule tot)
    show "\<forall>x\<in>set (data r). \<exists>l\<in>set (leads st).
        x = toListItem l \<and> campaign_run_id l = cid \<and> satisfies_filters f l"
      by (rule sound)
    show "?pg = 1 \<and> int (total r) \<le> ?sz \<longrightarrow>
        (\<forall>l\<in>set (leads st). campaign_run_id l = cid \<and> satisfies_filters f l \<longrightarrow>
           toListItem l \<in> set (data r))"
      by (rule whole)
  qed
qed

theorem getLeadsByCampaign_filters_witness:
  "first_row \<in> set (matching one_lead_db (lead_query ''c1'' all_filters))
   \<and> (\<exists>r. fst (getLeadsByCampaign None one_lead_db ''c1'' no_options all_filters) = Inr r
         \<and> total r = 1 \<and> toListItem first_row \<in> set (data r))"
proof -
  have sat: "satisfies_filters all_filters first_row"
    by (simp add: satisfies_filters_def all_filters_def first_row_def new_row_def a_lead_def
        CreateLeadPayload.extend_def)
  have mem: "first_row \<in> set (leads one_lead_db)" "campaign_run_id first_row = ''c1''"
    by (simp_all add: example_rows example_row_fields)
  note claim =
    getLeadsByCampaign_filters [of first_row one_lead_db "''c1''" all_filters no_options]
  from claim have "first_row \<in> set (matching one_lead_db (lead_query ''c1'' all_filters)) \<longleftrightarrow>
      first_row \<in> set (leads one_lead_db) \<and> campaign_run_id first_row = ''c1''
      \<and> satisfies_filters all_filters first_row"
    by (rule conjunct1)
  with sat mem have matched: "first_row \<in> set (matching one_lead_db (lead_query ''c1'' all_filters))"
    by (simp only: simp_thms)
  from claim have "\<exists>r. fst (getLeadsByCampaign None one_lead_db ''c1'' no_options all_filters) = Inr r
      \<and> total r = length (filter (\<lambda>l. campaign_run_id l = ''c1'' \<and> satisfies_filters all_filters l)
                            (leads one_lead_db))
      \<and> (\<forall>x\<in>set (data r). \<exists>l\<in>set (leads one_lead_db).
            x = toListItem l \<and> campaign_run_id l = ''c1'' \<and> satisfies_filters all_filters l)
      \<and> ((case LeadPaginationOptions.page no_options of None \<Rightarrow> 1 | Some p \<Rightarrow> p) = 1
           \<and> int (total r)
               \<le> (case LeadPaginationOptions.pageSize no_options of None \<Rightarrow> 25 | Some s \<Rightarrow> s) \<longrightarrow>
          (\<forall>l\<in>set (leads one_lead_db).
              campaign_run_id l = ''c1'' \<and> satisfies_filters all_filters l \<longrightarrow>
              toListItem l \<in> set (data r)))"
    by (rule conjunct2)
  then obtain r where r: "fst (getLeadsByCampaign None one_lead_db ''c1'' no_options all_filters) = Inr r"
      "total r = length (filter (\<lambda>l. campaign_run_id l = ''c1'' \<and> satisfies_filters all_filters l)
                            (leads one_lead_db))"
      "(case LeadPaginationOptions.page no_options of None \<Rightarrow> 1 | Some p \<Rightarrow> p) = 1
           \<and> int (total r)
               \<le> (case LeadPaginationOptions.pageSize no_options of None \<Rightarrow> 25 | Some s \<Rightarrow> s) \<longrightarrow>
          (\<forall>l\<in>set (leads one_lead_db).
              campaign_run_id l = ''c1'' \<and> satisfies_filters all_filters l \<longrightarrow>
              toListItem l \<in> set (data r))"
    by (elim exE conjE)
  have one: "total r = 1"
    unfolding r(2) by (simp add: example_rows example_row_fields sat)
  have "(case LeadPaginationOptions.page no_options of None \<Rightarrow> 1 | Some p \<Rightarrow> p) = 1
      \<and> int (total r)
          \<le> (case LeadPaginationOptions.pageSize no_options of None \<Rightarrow> 25 | Some s \<Rightarrow> s)"
    by (simp add: one no_options_def)
  with r(3) have "\<forall>l\<in>set (leads one_lead_db).
      campaign_run_id l = ''c1'' \<and> satisfies_filters all_filters l \<longrightarrow>
      toListItem l \<in> set (data r)"
    by (rule mp)
  then have "campaign_run_id first_row = ''c1'' \<and> satisfies_filters all_filters first_row \<longrightarrow>
      toListItem first_row \<in> set (data r)"
    using mem(1) by (rule bspec)
  then have shown: "toListItem first_row \<in> set (data r)"
    using mem(2) sat by (simp only: simp_thms)
  show ?thesis
  proof (intro conjI exI)
    show "first_row \<in> set (matching one_lead_db (lead_query ''c1'' all_filters))"
      by (rule matched)
    show "fst (getLeadsByCampaign None one_lead_db ''c1'' no_options all_filters) = Inr r"
      by (rule r(1))
    show "total r = 1"
      by (rule one)
    show "toListItem first_row \<in> set (data r)"
      by (rule shown)
  qed
qed

text \<open>
  C7 (as stated) fails in two ways. An empty string given as \<open>job\<close> is not compared: the
  lead with job \<open>admin\<close> is returned. And the result holds one page only: with a page
  size of 1, the first page of a campaign of two leads holds the lead with the higher
  probability and not the other one, which satisfies every (omitted) filter too.
\<close>

theorem getLeadsByCampaign_filters_counterexample:
  "fst (getLeadsByCampaign None one_lead_db ''c1'' no_options empty_job_filter) =
     Inr \<lparr>data = [toListItem first_row], total = 1, page = 1, pageSize = 25,
          totalPages = Finite 1\<rparr>
   \<and> LeadFilterOptions.job empty_job_filter = Some []
   \<and> CreateLeadPayload.job first_row = ''admin''
   \<and> fst (getLeadsByCampaign None two_lead_db ''c1''
          \<lparr>LeadPaginationOptions.page = Some 1, pageSize = Some 1\<rparr> no_filters) =
     Inr \<lparr>data = [toListItem second_row], total = 2, page = 1, pageSize = 1,
          totalPages = Finite 2\<rparr>
   \<and> first_row \<in> set (leads two_lead_db) \<and> campaign_run_id first_row = ''c1''
   \<and> toListItem first_row \<noteq> toListItem second_row"
proof -
  have m1: "matching one_lead_db (lead_query ''c1'' empty_job_filter) = [first_row]"
    by (simp add: matching_lead_query satisfies_filters_def empty_job_filter_def example_rows
        example_row_fields)
  have m2: "matching two_lead_db (lead_query ''c1'' no_filters) = [first_row, second_row]"
    by (simp add: matching_lead_query satisfies_filters_def no_filters_def example_rows
        example_row_fields)
  have o1: "order_probability_desc [first_row] = [first_row]"
    by (simp add: order_probability_desc_def)
  have o2: "order_probability_desc [first_row, second_row] = [second_row, first_row]"
    by (simp add: order_probability_desc_def example_row_fields)
  have c1: "\<lceil>(1::real) / 25\<rceil> = 1"
    by (rule ceiling_unique) simp_all
  have ne: "toListItem first_row \<noteq> toListItem second_row"
    by (simp add: toListItem_def example_row_fields)
  show ?thesis
    unfolding leads_ok m1 m2 o1 o2
    using ne by (simp add: db_range_def no_options_def Math_ceil_div_def c1 example_rows
        example_row_fields empty_job_filter_def)
qed

section \<open>Row counts of an ingestion run\<close>

lemma insert_loop_persisted:
  "length (leads st) \<le> length (leads (snd (insert_loop fault lds i c st)))
   \<and> length (leads (snd (insert_loop fault lds i c st))) \<le> length (leads st) + (length lds - i)
   \<and> (\<forall>cnt. fst (insert_loop fault lds i c st) = Inr cnt \<longrightarrow>
         length (leads (snd (insert_loop fault lds i c st))) = length (leads st) + (length lds - i))"
proof (induction "length lds - i" arbitrary: i c st rule: less_induct)
  case less
  show ?case
  proof (cases "i < length lds")
    case False
    then show ?thesis
      by (simp add: insert_loop_done)
  next
    case True
    show ?thesis
    proof (cases "fault (length (insert_log st))")
      case (Some e)
      with True show ?thesis
        by (simp add: insert_loop_fail_step)
    next
      case None
      let ?b = "take BATCH_SIZE (drop i lds)"
      let ?st = "st\<lparr>leads := leads st @ new_rows (row_defaults st) (length (leads st)) ?b,
                     insert_log := insert_log st @ [?b]\<rparr>"
      have step: "insert_loop fault lds i c st =
          insert_loop fault lds (i + BATCH_SIZE) (c + length ?b) ?st"
        using True None by (rule insert_loop_ok_step)
      have dec: "length lds - (i + BATCH_SIZE) < length lds - i"
        using True by (simp add: BATCH_SIZE_def)
      have len: "length (leads ?st) = length (leads st) + length ?b"
        by (simp add: length_new_rows)
      have sum: "length ?b + (length lds - (i + BATCH_SIZE)) = length lds - i"
        using True by (simp add: min_def)
      let ?r = "insert_loop fault lds (i + BATCH_SIZE) (c + length ?b) ?st"
      have ih: "length (leads ?st) \<le> length (leads (snd ?r))
          \<and> length (leads (snd ?r)) \<le> length (leads ?st) + (length lds - (i + BATCH_SIZE))
          \<and> (\<forall>cnt. fst ?r = Inr cnt \<longrightarrow>
                length (leads (snd ?r)) = length (leads ?st) + (length lds - (i + BATCH_SIZE)))"
        using dec by (rule less.hyps)
      have "length (leads st) \<le> length (leads (snd ?r))"
        using ih len by linarith
      moreover have "length (leads (snd ?r)) \<le> length (leads st) + (length lds - i)"
        using ih len sum by linarith
      moreover have "\<forall>cnt. fst ?r = Inr cnt \<longrightarrow>
          length (leads (snd ?r)) = length (leads st) + (length lds - i)"
      proof (intro allI impI)
        fix cnt assume "fst ?r = Inr cnt"
        then have "length (leads (snd ?r)) = length (leads ?st) + (length lds - (i + BATCH_SIZE))"
          using ih by blast
        then show "length (leads (snd ?r)) = length (leads st) + (length lds - i)"
          using len sum by linarith
      qed
      ultimately show ?thesis
        unfolding step by (intro conjI)
    qed
  qed
qed

lemma bulkInsertLeads_persisted:
  "length (leads st) \<le> length (leads (snd (bulkInsertLeads fault st lds)))
   \<and> length (leads (snd (bulkInsertLeads fault st lds))) \<le> length (leads st) + length lds
   \<and> (\<forall>cnt. fst (bulkInsertLeads fault st lds) = Inr cnt \<longrightarrow>
         length (leads (snd (bulkInsertLeads fault st lds))) = length (leads st) + length lds)"
  using insert_loop_persisted [of st fault lds 0 0] by (simp add: bulkInsertLeads_def)

lemma mark_failed_counts:
  "total_rows (mark_failed c k msg) = total_rows c"
  "processed_rows (mark_failed c k msg) = int k"
  "dropped_rows (mark_failed c k msg) = total_rows c - int k"
  "status (mark_failed c k msg) = failed"
  by (simp_all add: mark_failed_def)

lemma mark_completed_counts:
  "total_rows (mark_completed c lds k) = total_rows c"
  "processed_rows (mark_completed c lds k) = int (length lds)"
  "dropped_rows (mark_completed c lds k) = int k"
  "status (mark_completed c lds k) = completed"
  by (simp_all add: mark_completed_def)

text \<open>
  C9, for the run as the specification describes it. Every state of the campaign record
  has counts that are not negative with \<open>processed_rows + dropped_rows \<le> total_rows\<close>;
  in a terminal state (\<open>completed\<close> or \<open>failed\<close>) the sum is \<open>total_rows\<close>; a run on a
  valid batch ends in a terminal state, and its \<open>processed_rows\<close> is the number of leads the
  run has added to the table.
\<close>

theorem ingest_row_counts:
  "(\<forall>c\<in>set (fst (ingest valid base n scoring fault st)).
      0 \<le> total_rows c \<and> 0 \<le> processed_rows c \<and> 0 \<le> dropped_rows c
      \<and> processed_rows c + dropped_rows c \<le> total_rows c
      \<and> (status c = completed \<or> status c = failed \<longrightarrow>
           processed_rows c + dropped_rows c = total_rows c))
   \<and> (valid \<longrightarrow>
        fst (ingest valid base n scoring fault st) \<noteq> []
        \<and> (status (last (fst (ingest valid base n scoring fault st))) = completed
            \<or> status (last (fst (ingest valid base n scoring fault st))) = failed)
        \<and> processed_rows (last (fst (ingest valid base n scoring fault st))) =
            int (length (leads (snd (ingest valid base n scoring fault st))))
            - int (length (leads st)))"
proof (cases valid)
  case False
  then show ?thesis
    by (simp add: ingest_def)
next
  case True
  show ?thesis
  proof (cases scoring)
    case ScoringUnavailable
    with True show ?thesis
      by (simp add: ingest_def Let_def mark_failed_counts)
  next
    case ScoringResponseMalformed
    with True show ?thesis
      by (simp add: ingest_def Let_def mark_failed_counts)
  next
    case (Scored lds invalid)
    show ?thesis
    proof (cases "length lds + invalid = n")
      case False
      with True Scored show ?thesis
        by (simp add: ingest_def Let_def mark_failed_counts)
    next
      case total: True
      obtain res st' where run: "bulkInsertLeads fault st lds = (res, st')"
        by (cases "bulkInsertLeads fault st lds")
      have bounds: "length (leads st) \<le> length (leads st')"
          "length (leads st') \<le> length (leads st) + length lds"
          "\<forall>cnt. res = Inr cnt \<longrightarrow> length (leads st') = length (leads st) + length lds"
        using bulkInsertLeads_persisted [of st fault lds] by (simp_all add: run)
      show ?thesis
      proof (cases res)
        case (Inl err)
        obtain msg where msg: "err = Error msg"
          by (cases err)
        have "int (length (leads st') - length (leads st)) \<le> int n"
          using bounds(2) total by linarith
        with True Scored total run Inl msg bounds(1) show ?thesis
          by (simp add: ingest_def Let_def mark_failed_counts)
      next
        case (Inr cnt)
        then have "length (leads st') = length (leads st) + length lds"
          using bounds(3) by simp
        with True Scored total run Inr show ?thesis
          by (simp add: ingest_def Let_def mark_completed_counts)
      qed
    qed
  qed
qed


theorem ingest_row_counts_witness:
  "status (last (fst (ingest True a_campaign 3 (Scored [a_lead, a_lead] 1) never_fail empty_db))) =
     completed
   \<and> processed_rows (last (fst (ingest True a_campaign 3 (Scored [a_lead, a_lead] 1)
                                  never_fail empty_db))) = 2
   \<and> dropped_rows (last (fst (ingest True a_campaign 3 (Scored [a_lead, a_lead] 1)
                                never_fail empty_db))) = 1
   \<and> status (last (fst (ingest True a_campaign 501 (Scored (replicate 501 a_lead) 0)
                          (fail_at 1) empty_db))) = failed
   \<and> processed_rows (last (fst (ingest True a_campaign 501 (Scored (replicate 501 a_lead) 0)
                                  (fail_at 1) empty_db))) = 500
   \<and> dropped_rows (last (fst (ingest True a_campaign 501 (Scored (replicate 501 a_lead) 0)
                                (fail_at 1) empty_db))) = 1"
proof -
  have ok: "bulkInsertLeads never_fail empty_db [a_lead, a_lead] =
      (Inr (length [a_lead, a_lead]),
       empty_db\<lparr>leads := leads empty_db @
                   new_rows (row_defaults empty_db) (length (leads empty_db)) [a_lead, a_lead],
         insert_log := insert_log empty_db @ chunks BATCH_SIZE [a_lead, a_lead]\<rparr>)"
    by (rule bulkInsertLeads_all_ok) (simp add: never_fail_def)
  have bad: "bulkInsertLeads (fail_at 1) empty_db (replicate 501 a_lead) =
      (Inl (Error (''Failed to insert leads: '' @ message an_error)),
       empty_db\<lparr>leads := leads empty_db @ new_rows (row_defaults empty_db)
                   (length (leads empty_db)) (take (1 * BATCH_SIZE) (replicate 501 a_lead)),
         insert_log := insert_log empty_db @
                   take (Suc 1) (chunks BATCH_SIZE (replicate 501 a_lead))\<rparr>)"
    by (rule bulkInsertLeads_fails_at) (simp_all add: fail_at_def empty_db_def BATCH_SIZE_def)
  have e0: "leads empty_db = []"
    by (simp add: empty_db_def)
  have r1: "fst (ingest True a_campaign 3 (Scored [a_lead, a_lead] 1) never_fail empty_db) =
      [a_campaign\<lparr>total_rows := 3, processed_rows := 0, dropped_rows := 0,
                    status := processing, error_message := None\<rparr>,
       mark_completed
         (a_campaign\<lparr>total_rows := 3, processed_rows := 0, dropped_rows := 0,
                       status := processing, error_message := None\<rparr>)
         [a_lead, a_lead] 1]"
    by (simp add: ingest_def Let_def ok)
  have r2: "fst (ingest True a_campaign 501 (Scored (replicate 501 a_lead) 0) (fail_at 1) empty_db) =
      [a_campaign\<lparr>total_rows := 501, processed_rows := 0, dropped_rows := 0,
                    status := processing, error_message := None\<rparr>,
       mark_failed
         (a_campaign\<lparr>total_rows := 501, processed_rows := 0, dropped_rows := 0,
                       status := processing, error_message := None\<rparr>)
         500 (''Failed to insert leads: '' @ message an_error)]"
    by (simp add: ingest_def Let_def bad [unfolded One_nat_def] e0 length_new_rows BATCH_SIZE_def)
  show ?thesis
    using ingest_row_counts [of True a_campaign 3 "Scored [a_lead, a_lead] 1" never_fail empty_db]
      ingest_row_counts [of True a_campaign 501 "Scored (replicate 501 a_lead) 0" "fail_at 1"
        empty_db]
    unfolding r1 r2
    by (simp add: mark_completed_counts mark_failed_counts)
qed

end
